theory Spec2Isabelle
  imports Main "HOL-Library.Char_ord" "HOL-Library.List_Lexorder"
begin

section \<open>Strings as the interpreter handles them\<close>

text \<open>
  A Python \<open>str\<close> is modelled as a \<open>string\<close>, one \<open>char\<close> per code point below 256;
  \<open>bytes\<close> are strings as well, one \<open>char\<close> per byte.
  \<open>str.split()\<close>, \<open>str.strip()\<close> and the regular expression class \<open>\s\<close> share one
  notion of white space: the code points 9 to 13, 28 to 32, 133 and 160.
\<close>

definition isspace :: "char \<Rightarrow> bool" where
  "isspace c = (c \<in> set [CHR 0x09, CHR 0x0A, CHR 0x0B, CHR 0x0C, CHR 0x0D,
                          CHR 0x1C, CHR 0x1D, CHR 0x1E, CHR 0x1F, CHR 0x20,
                          CHR 0x85, CHR 0xA0])"

definition NL :: string where
  "NL = [CHR 0x0A]"

definition TAB :: string where
  "TAB = [CHR 0x09]"

definition SQ :: string where
  "SQ = [CHR 0x27]"

text \<open>\<open>s.split()\<close>: the maximal runs of non-space characters, in order.\<close>

fun split_acc :: "string \<Rightarrow> string \<Rightarrow> string list" where
  "split_acc [] w = (if w = [] then [] else [w])"
| "split_acc (c # cs) w =
     (if isspace c then (if w = [] then split_acc cs [] else w # split_acc cs [])
      else split_acc cs (w @ [c]))"

definition str_split :: "string \<Rightarrow> string list" where
  "str_split s = split_acc s []"

text \<open>\<open>sep.join(xs)\<close>.\<close>

fun join :: "string \<Rightarrow> string list \<Rightarrow> string" where
  "join sep [] = []"
| "join sep [x] = x"
| "join sep (x # y # ys) = x @ sep @ join sep (y # ys)"

text \<open>\<open>s.strip()\<close>: white space is dropped at the left, then at the right.\<close>

definition rstrip :: "string \<Rightarrow> string" where
  "rstrip s = rev (dropWhile isspace (rev s))"

definition strip :: "string \<Rightarrow> string" where
  "strip s = rstrip (dropWhile isspace s)"

text \<open>
  \<open>s.replace(old, new)\<close>: the occurrences of \<open>old\<close> are found from the left and do not
  overlap; an empty \<open>old\<close> matches before every character and at the end.
\<close>

function replace_ne :: "string \<Rightarrow> string \<Rightarrow> string \<Rightarrow> string" where
  "replace_ne old new [] = []"
| "replace_ne old new (c # cs) =
     (if take (length old) (c # cs) = old
      then new @ replace_ne old new (drop (length old - 1) cs)
      else c # replace_ne old new cs)"
  by pat_completeness auto
termination
  by (relation "measure (\<lambda>(old, new, s). length s)") auto

definition replace :: "string \<Rightarrow> string \<Rightarrow> string \<Rightarrow> string" where
  "replace old new s =
     (if old = [] then new @ concat (map (\<lambda>c. c # new) s) else replace_ne old new s)"

text \<open>\<open>"%d" % n\<close>: the decimal numeral of an integer.\<close>

fun digits :: "nat \<Rightarrow> string" where
  "digits n =
     (if n < 10 then [char_of (48 + n)] else digits (n div 10) @ [char_of (48 + n mod 10)])"

definition str_of_int :: "int \<Rightarrow> string" where
  "str_of_int i = (if i < 0 then CHR ''-'' # digits (nat (- i)) else digits (nat i))"

section \<open>The session and the world around it\<close>

text \<open>
  Exceptions are values. \<open>Fault m\<close> is an exception raised by an external collaborator
  (a host, the operating system), with its message; the others are raised by the
  interpreter itself. External operations answer \<open>Inl m\<close> for a fault with message \<open>m\<close>.
\<close>

datatype error =
    TypeError | ValueError | IndexError | KeyError | AttributeError | UnicodeDecodeError
  | UnsupportedFormat | UnsupportedCodePoint
  | Fault string

text \<open>
  What one turn of the relay loop of \<open>spawn\<close> finds: the child has exited
  (\<open>p.poll()\<close> is not \<open>None\<close>), nothing was ready within the poll interval, the
  terminal had input \<open>d\<close>, only the pty had output \<open>o\<close>, or a call of that turn raised.
\<close>

datatype tick = Exited | Idle | FromStdin string | FromMaster string | Raised string

text \<open>
  The host capability is consumed, not implemented: a host is what its operations
  answer. A captured run answers the exit status and the output; \<open>popen\<close> answers the
  course of the child, one \<open>tick\<close> per turn of the relay loop.
\<close>

record host =
  async_cmd_status :: "string \<Rightarrow> string + int \<times> string"
  async_cmd_status_host :: "string \<Rightarrow> string + int \<times> string"
  popen :: "string \<Rightarrow> bool \<Rightarrow> string + (nat \<Rightarrow> tick)"
  run_in_window :: "string \<Rightarrow> (string \<times> string) list \<Rightarrow> string + unit"

text \<open>The registry entries: \<open>(cmdfmt, cmdhelp, (execfmt, on_host, interactive))\<close> and
  \<open>(cmdfmt, cmdhelp, (shell, kwargs))\<close>.\<close>

record run_cmd =
  rc_cmdfmt :: string
  rc_cmdhelp :: string
  rc_execfmt :: string
  rc_on_host :: bool
  rc_interactive :: bool

record window_cmd =
  wc_cmdfmt :: string
  wc_cmdhelp :: string
  wc_shell :: string
  wc_kwargs :: "(string \<times> string) list"

text \<open>
  The session object. A dict is an association list read with \<open>map_of\<close>; the key
  \<open>None\<close> of \<open>cli_run_cmds\<close> is the default command.
\<close>

record unet =
  hosts :: "(string \<times> host) list"
  cli_run_cmds :: "(string option \<times> run_cmd) list"
  cli_in_window_cmds :: "(string \<times> window_cmd) list"
  unet_instance :: string
  cli_histfile :: "string option"
  async_get_exec_path :: "string + string"
  unet_run_in_window :: "string \<Rightarrow> string \<Rightarrow> string + unit"

text \<open>
  What a call leaves behind: the operations on the sink \<open>outf\<close>, the operations invoked
  on hosts, session and operating system, the terminal settings of standard input, and
  the socket path of the session. The remaining fields are what the operating system
  answers; no function changes them.

  The sink is one of two objects. The local session passes \<open>sys.stdout\<close>, a text
  stream: it takes \<open>write\<close> of a \<open>str\<close> and \<open>flush\<close>. The socket server passes the
  \<open>asyncio.StreamWriter\<close> of the connection: it takes \<open>write\<close> of \<open>bytes\<close> and
  \<open>drain\<close>, raises TypeError for \<open>write\<close> of a \<open>str\<close> and has no \<open>flush\<close>.
\<close>

datatype sink_kind = TextSink | StreamWriter

datatype sinkop = Write string | WriteBytes string | Flush | Drain

datatype tty_attrs = Settings nat | RawOf tty_attrs

datatype event =
    CmdStatus string string
  | CmdStatusHost string string
  | Popen string string bool
  | RunInWindow string string "(string \<times> string) list"
  | OpenPty
  | OsWrite string
  | TcGetAttr
  | SetRaw
  | TcSetAttr tty_attrs
  | StartServer string
  | GetExecPath
  | UnetRunInWindow string string

record world =
  sink :: "sinkop list"
  sink_kind :: sink_kind
  calls :: "event list"
  tty :: tty_attrs
  cli_sockpath :: "string option"
  stdin_isatty :: bool
  openpty :: "string + unit"
  mkdtemp :: "string + string"
  start_unix_server :: "string + unit"
  self_path :: string

text \<open>The exception the sink raises for an operation, if any.\<close>

fun sink_raises :: "sink_kind \<Rightarrow> sinkop \<Rightarrow> error option" where
  "sink_raises TextSink (Write s) = None"
| "sink_raises TextSink Flush = None"
| "sink_raises TextSink (WriteBytes b) = Some TypeError"
| "sink_raises TextSink Drain = Some AttributeError"
| "sink_raises StreamWriter (Write s) = Some TypeError"
| "sink_raises StreamWriter Flush = Some AttributeError"
| "sink_raises StreamWriter (WriteBytes b) = None"
| "sink_raises StreamWriter Drain = None"

text \<open>
  Operations on the sink, one after the other: each is recorded when the sink takes
  it, and the first it does not take raises and ends the sequence.
\<close>

fun outf_ops :: "sinkop list \<Rightarrow> world \<Rightarrow> (error + unit) \<times> world" where
  "outf_ops [] w = (Inr (), w)"
| "outf_ops (x # xs) w =
     (case sink_raises (sink_kind w) x of
        Some e \<Rightarrow> (Inl e, w)
      | None \<Rightarrow> outf_ops xs (w\<lparr>sink := sink w @ [x]\<rparr>))"

text \<open>\<open>outf.write(s)\<close> for a \<open>str\<close>.\<close>

definition outf_write :: "string \<Rightarrow> world \<Rightarrow> (error + unit) \<times> world" where
  "outf_write s w = outf_ops [Write s] w"

text \<open>
  A call returns \<open>Some (r, w)\<close>, with \<open>r\<close> the exception raised or the value returned
  and \<open>w\<close> the world it leaves, or \<open>None\<close> when the relay loop is still turning after
  \<open>fuel\<close> turns.
\<close>

type_synonym 'a result = "((error + 'a) \<times> world) option"

text \<open>\<open>outf.write(s)\<close> followed by \<open>return v\<close>.\<close>

definition write_then :: "string \<Rightarrow> 'a \<Rightarrow> world \<Rightarrow> 'a result" where
  "write_then s v w =
     (case outf_write s w of
        (Inl e, w') \<Rightarrow> Some (Inl e, w')
      | (Inr _, w') \<Rightarrow> Some (Inr v, w'))"

definition invoke :: "event \<Rightarrow> world \<Rightarrow> world" where
  "invoke e w = w\<lparr>calls := calls w @ [e]\<rparr>"

text \<open>The operations of a host: a captured run, a spawn, a window.\<close>

fun host_event :: "event \<Rightarrow> bool" where
  "host_event (CmdStatus h c) = True"
| "host_event (CmdStatusHost h c) = True"
| "host_event (Popen h c s) = True"
| "host_event (RunInWindow h c k) = True"
| "host_event _ = False"

text \<open>The operations on the terminal settings.\<close>

fun tty_event :: "event \<Rightarrow> bool" where
  "tty_event TcGetAttr = True"
| "tty_event SetRaw = True"
| "tty_event (TcSetAttr a) = True"
| "tty_event _ = False"

definition is_host :: "unet \<Rightarrow> string \<Rightarrow> bool" where
  "is_host u x = (map_of (hosts u) x \<noteq> None)"

text \<open>\<open>sorted(unet.hosts.keys())\<close>.\<close>

definition sorted_hosts :: "unet \<Rightarrow> string list" where
  "sorted_hosts u = sort (remdups (map fst (hosts u)))"

section \<open>Splitting a line into target hosts and command\<close>

text \<open>
  The loop \<open>for i, e in enumerate(csplit): if e not in unet.hosts: break\<close>, started
  with \<open>i = 0\<close>: \<open>k\<close> is the index of the next token, \<open>i\<close> the loop variable, which
  keeps its last value when the tokens run out.
\<close>

fun scan_hosts :: "unet \<Rightarrow> string list \<Rightarrow> nat \<Rightarrow> nat \<Rightarrow> nat" where
  "scan_hosts u [] k i = i"
| "scan_hosts u (e # es) k i = (if \<not> is_host u e then k else scan_hosts u es (Suc k) k)"

definition host_cmd_split :: "unet \<Rightarrow> string \<Rightarrow> string list \<times> string" where
  "host_cmd_split u cmd =
     (let csplit = str_split cmd;
          i = scan_hosts u csplit 0 0;
          hs = take i csplit
      in (if hs = [] then sorted_hosts u else hs, join '' '' (drop i csplit)))"

text \<open>
  The rule as the specification words it: the targets are the longest prefix of tokens
  that are host names, all hosts when that prefix is empty, and the command is the
  remaining tokens joined.
\<close>

definition spec_host_cmd_split :: "unet \<Rightarrow> string \<Rightarrow> string list \<times> string" where
  "spec_host_cmd_split u cmd =
     (let csplit = str_split cmd;
          hs = takeWhile (is_host u) csplit
      in (if hs = [] then sorted_hosts u else hs,
          join '' '' (dropWhile (is_host u) csplit)))"

section \<open>Formatting the command\<close>

text \<open>
  \<open>execfmt.format(ucmd)\<close> with its single positional argument, read from the left:
  \<open>{{\<close> and \<open>}}\<close> stand for a brace, \<open>{}\<close> and \<open>{0}\<close> for the argument; a second \<open>{}\<close>
  raises IndexError, mixing \<open>{}\<close> with \<open>{0}\<close> and an unmatched brace raise ValueError.
  Every other replacement field (another index or name, a conversion, a format
  specification) ends the model with \<open>UnsupportedFormat\<close>.
\<close>

datatype numbering = Unnumbered | Automatic | Manual

fun format_go :: "string \<Rightarrow> string \<Rightarrow> numbering \<Rightarrow> string option \<Rightarrow> string \<Rightarrow> error + string" where
  "format_go arg [] nb None out = Inr out"
| "format_go arg [] nb (Some f) out = Inl ValueError"
| "format_go arg (c # cs) nb (Some f) out =
     (if c = CHR ''}'' then
        (if f = [] then
           (case nb of
              Manual \<Rightarrow> Inl ValueError
            | Automatic \<Rightarrow> Inl IndexError
            | Unnumbered \<Rightarrow> format_go arg cs Automatic None (out @ arg))
         else if f = ''0'' then
           (case nb of
              Automatic \<Rightarrow> Inl ValueError
            | _ \<Rightarrow> format_go arg cs Manual None (out @ arg))
         else Inl UnsupportedFormat)
      else format_go arg cs nb (Some (f @ [c])) out)"
| "format_go arg [c] nb None out =
     (if c = CHR ''{'' \<or> c = CHR ''}'' then Inl ValueError else Inr (out @ [c]))"
| "format_go arg (c # d # cs) nb None out =
     (if c = CHR ''{'' then
        (if d = CHR ''{'' then format_go arg cs nb None (out @ [c])
         else format_go arg (d # cs) nb (Some []) out)
      else if c = CHR ''}'' then
        (if d = CHR ''}'' then format_go arg cs nb None (out @ [c]) else Inl ValueError)
      else format_go arg (d # cs) nb None (out @ [c]))"

definition str_format :: "string \<Rightarrow> string \<Rightarrow> error + string" where
  "str_format fmt arg = format_go arg fmt Unnumbered None []"

section \<open>The pty bridge\<close>

text \<open>The loop \<open>while p.poll() is None\<close> of \<open>spawn\<close>, at its turn \<open>k\<close>.\<close>

fun relay :: "nat \<Rightarrow> (nat \<Rightarrow> tick) \<Rightarrow> nat \<Rightarrow> world \<Rightarrow> unit result" where
  "relay 0 p k w = None"
| "relay (Suc fuel) p k w =
     (case p k of
        Exited \<Rightarrow> Some (Inr (), w)
      | Idle \<Rightarrow> relay fuel p (Suc k) w
      | FromStdin d \<Rightarrow> relay fuel p (Suc k) (invoke (OsWrite d) w)
      | FromMaster out \<Rightarrow>
          (case outf_ops (if out = [] then [] else [Write out, Flush]) w of
             (Inl e, w') \<Rightarrow> Some (Inl e, w')
           | (Inr _, w') \<Rightarrow> relay fuel p (Suc k) w')
      | Raised m \<Rightarrow> Some (Inl (Fault m), w))"

text \<open>The body of the \<open>try\<close> of \<open>spawn\<close>.\<close>

definition spawn_body :: "nat \<Rightarrow> unet \<Rightarrow> string \<Rightarrow> string \<Rightarrow> bool \<Rightarrow> world \<Rightarrow> unit result" where
  "spawn_body fuel u h cmd on_host w =
     (let w1 = invoke OpenPty w in
      case openpty w of
        Inl m \<Rightarrow> Some (Inl (Fault m), w1)
      | Inr _ \<Rightarrow>
          (case map_of (hosts u) h of
             None \<Rightarrow> Some (Inl KeyError, w1)
           | Some hc \<Rightarrow>
               (let w2 = invoke (Popen h cmd on_host) w1 in
                case popen hc cmd on_host of
                  Inl m \<Rightarrow> Some (Inl (Fault m), w2)
                | Inr p \<Rightarrow>
                    (case outf_ops [Write [CHR 0x0D], Flush] w2 of
                       (Inl e, w3) \<Rightarrow> Some (Inl e, w3)
                     | (Inr _, w3) \<Rightarrow> relay fuel p 0 w3))))"

text \<open>
  \<open>spawn\<close>: when standard input is a terminal its settings are read and it is set raw;
  the \<open>finally\<close> clause puts the settings read at entry back, whatever the body did.
  The termios calls themselves are taken to succeed.
\<close>

definition spawn :: "nat \<Rightarrow> unet \<Rightarrow> string \<Rightarrow> string \<Rightarrow> bool \<Rightarrow> world \<Rightarrow> unit result" where
  "spawn fuel u h cmd on_host w =
     (let old_tty = tty w;
          w1 = (if stdin_isatty w
                then (invoke SetRaw (invoke TcGetAttr w))\<lparr>tty := RawOf old_tty\<rparr>
                else w)
      in case spawn_body fuel u h cmd on_host w1 of
           None \<Rightarrow> None
         | Some (r, w2) \<Rightarrow>
             Some (r, if stdin_isatty w2
                      then (invoke (TcSetAttr old_tty) w2)\<lparr>tty := old_tty\<rparr>
                      else w2))"

section \<open>Running a command on a set of hosts\<close>

definition host_begin :: "string \<Rightarrow> string" where
  "host_begin h = ''------ Host: '' @ h @ '' ------'' @ NL"

definition host_end :: "string \<Rightarrow> string" where
  "host_end h = ''------- End: '' @ h @ '' ------'' @ NL"

text \<open>The loop of the pty branch; \<open>multi\<close> is \<open>len(hosts) > 1\<close>.\<close>

fun run_pty :: "nat \<Rightarrow> unet \<Rightarrow> bool \<Rightarrow> string \<Rightarrow> bool \<Rightarrow> string list \<Rightarrow> world \<Rightarrow> unit result" where
  "run_pty fuel u multi ucmd on_host [] w = Some (Inr (), w)"
| "run_pty fuel u multi ucmd on_host (h # hs) w =
     (let shcmd = replace ''%NAME%'' h ucmd in
      case outf_ops (if multi then [Write (host_begin h)] else []) w of
        (Inl e, w1) \<Rightarrow> Some (Inl e, w1)
      | (Inr _, w1) \<Rightarrow>
          (case spawn fuel u h shcmd on_host w1 of
             None \<Rightarrow> None
           | Some (Inl e, w2) \<Rightarrow> Some (Inl e, w2)
           | Some (Inr _, w2) \<Rightarrow>
               (case outf_ops (if multi then [Write (host_end h)] else []) w2 of
                  (Inl e, w3) \<Rightarrow> Some (Inl e, w3)
                | (Inr _, w3) \<Rightarrow> run_pty fuel u multi ucmd on_host hs w3)))"

text \<open>
  The loop that builds \<open>aws\<close>: for each host the operation to await, with what the host
  answers to it. Nothing runs before \<open>asyncio.gather\<close> awaits the whole list.
\<close>

fun mk_aws :: "unet \<Rightarrow> string \<Rightarrow> bool \<Rightarrow> string list \<Rightarrow> error + (event \<times> (string + int \<times> string)) list" where
  "mk_aws u ucmd on_host [] = Inr []"
| "mk_aws u ucmd on_host (h # hs) =
     (let shcmd = replace ''%NAME%'' h ucmd in
      case map_of (hosts u) h of
        None \<Rightarrow> Inl KeyError
      | Some hc \<Rightarrow>
          (let aw = (if on_host
                     then (CmdStatusHost h shcmd, async_cmd_status_host hc shcmd)
                     else (CmdStatus h shcmd, async_cmd_status hc shcmd))
           in case mk_aws u ucmd on_host hs of
                Inl e \<Rightarrow> Inl e
              | Inr aws \<Rightarrow> Inr (aw # aws)))"

text \<open>
  The loop over \<open>zip(hosts, results)\<close>. With \<open>return_exceptions=True\<close> a fault of a host
  is its result; \<open>rc, o, _ = result\<close> then raises TypeError.
\<close>

fun report :: "bool \<Rightarrow> (string \<times> (string + int \<times> string)) list \<Rightarrow> world \<Rightarrow> (error + unit) \<times> world" where
  "report multi [] w = (Inr (), w)"
| "report multi ((h, r) # rest) w =
     (case r of
        Inl m \<Rightarrow> (Inl TypeError, w)
      | Inr (rc, out) \<Rightarrow>
          (case outf_ops
                  ((if multi then [Write (host_begin h)] else [])
                   @ (if rc \<noteq> 0
                      then [Write (''*** non-zero exit status: '' @ str_of_int rc @ NL)]
                      else [])
                   @ [Write out]
                   @ (if multi then [Write (host_end h)] else [])) w of
             (Inl e, w') \<Rightarrow> (Inl e, w')
           | (Inr _, w') \<Rightarrow> report multi rest w'))"

text \<open>
  The report of one host as the specification describes it: the output, after the
  status line when the exit status is not zero, between the two bracket lines when
  more than one host is targeted.
\<close>

definition reported_block :: "bool \<Rightarrow> string \<times> int \<times> string \<Rightarrow> sinkop list" where
  "reported_block multi = (\<lambda>(h, rc, out).
     (if multi then [Write (host_begin h)] else [])
     @ (if rc \<noteq> 0 then [Write (''*** non-zero exit status: '' @ str_of_int rc @ NL)] else [])
     @ [Write out]
     @ (if multi then [Write (host_end h)] else []))"

definition run_command :: "nat \<Rightarrow> unet \<Rightarrow> string \<Rightarrow> string \<Rightarrow> bool \<Rightarrow> bool \<Rightarrow> world \<Rightarrow> unit result" where
  "run_command fuel u line execfmt on_host with_pty w =
     (case host_cmd_split u line of (hs, ucmd0) \<Rightarrow>
        (let unknowns = filter (\<lambda>x. \<not> is_host u x) hs in
         if unknowns \<noteq> [] then
           Some (outf_write (''% Unknown host[s]: '' @ join '', '' unknowns @ NL) w)
         else
           (case str_format execfmt ucmd0 of
              Inl e \<Rightarrow> Some (Inl e, w)
            | Inr f \<Rightarrow>
                (let ucmd = replace ''%INSTANCE%'' (unet_instance u) f in
                 if with_pty then
                   (case run_pty fuel u (1 < length hs) ucmd on_host hs w of
                      None \<Rightarrow> None
                    | Some (Inl e, w') \<Rightarrow> Some (Inl e, w')
                    | Some (Inr _, w') \<Rightarrow> Some (outf_write NL w'))
                 else
                   (case mk_aws u ucmd on_host hs of
                      Inl e \<Rightarrow> Some (Inl e, w)
                    | Inr aws \<Rightarrow>
                        Some (report (1 < length hs) (zip hs (map snd aws))
                                (w\<lparr>calls := calls w @ map fst aws\<rparr>)))))))"

section \<open>The dispatcher\<close>

text \<open>
  \<open>make_help_str\<close>. Sorting the keys compares them: with the default command (key
  \<open>None\<close>) beside any other key that raises TypeError.
\<close>

definition help_keys :: "unet \<Rightarrow> error + string option list" where
  "help_keys u =
     (let keys = remdups (map fst (cli_run_cmds u))
                 @ map Some (remdups (map fst (cli_in_window_cmds u)))
      in if None \<in> set keys
         then (if 1 < length keys then Inl TypeError else Inr keys)
         else Inr (map Some (sort (map the keys))))"

definition help_entry :: "unet \<Rightarrow> string option \<Rightarrow> error + string" where
  "help_entry u cmd =
     (case map_of (cli_run_cmds u) cmd of
        Some v \<Rightarrow> Inr (''  '' @ rc_cmdfmt v @ TAB @ '':: '' @ rc_cmdhelp v @ NL)
      | None \<Rightarrow>
          (case cmd of
             None \<Rightarrow> Inl KeyError
           | Some c \<Rightarrow>
               (case map_of (cli_in_window_cmds u) c of
                  None \<Rightarrow> Inl KeyError
                | Some v \<Rightarrow> Inr (''  '' @ wc_cmdfmt v @ TAB @ '':: '' @ wc_cmdhelp v @ NL))))"

fun help_entries :: "unet \<Rightarrow> string option list \<Rightarrow> string \<Rightarrow> error + string" where
  "help_entries u [] s = Inr s"
| "help_entries u (cmd # keys) s =
     (case help_entry u cmd of
        Inl e \<Rightarrow> Inl e
      | Inr l \<Rightarrow> help_entries u keys (s @ l))"

definition help_head :: string where
  "help_head = NL @ ''Basic Commands:'' @ NL
     @ ''  cli   :: open a secondary CLI window'' @ NL
     @ ''  help  :: this help'' @ NL
     @ ''  hosts :: list hosts'' @ NL
     @ ''  quit  :: quit the cli'' @ NL
     @ NL @ ''Commands:'' @ NL"

definition make_help_str :: "unet \<Rightarrow> error + string" where
  "make_help_str u =
     (case help_keys u of
        Inl e \<Rightarrow> Inl e
      | Inr keys \<Rightarrow>
          (case help_entries u keys help_head of
             Inl e \<Rightarrow> Inl e
           | Inr s \<Rightarrow> Inr (s @ NL)))"

text \<open>
  \<open>remote_cli\<close>: the server is started when the session has no socket path yet, then
  a window is opened on the client. Every exception is caught and logged, none reaches
  the caller or the sink.
\<close>

definition remote_cli :: "unet \<Rightarrow> string \<Rightarrow> string \<Rightarrow> bool \<Rightarrow> world \<Rightarrow> world" where
  "remote_cli u prompt title background w =
     (case (if cli_sockpath w = None \<or> cli_sockpath w = Some []
            then (case mkdtemp w of
                    Inl m \<Rightarrow> Inl w
                  | Inr d \<Rightarrow>
                      (let sockpath = d @ ''/cli.sock'';
                           w1 = invoke (StartServer sockpath) w
                       in case start_unix_server w of
                            Inl m \<Rightarrow> Inl w1
                          | Inr _ \<Rightarrow> Inr (w1\<lparr>cli_sockpath := Some sockpath\<rparr>, sockpath)))
            else (case cli_sockpath w of
                    None \<Rightarrow> Inl w
                  | Some sockpath \<Rightarrow> Inr (w, sockpath))) of
        Inl w' \<Rightarrow> w'
      | Inr (w1, sockpath) \<Rightarrow>
          (let w2 = invoke GetExecPath w1 in
           case async_get_exec_path u of
             Inl m \<Rightarrow> w2
           | Inr python_path \<Rightarrow>
               (let cmd0 = python_path @ '' '' @ self_path w;
                    cmd1 = (case cli_histfile u of
                              None \<Rightarrow> cmd0
                            | Some hf \<Rightarrow> if hf = [] then cmd0 else cmd0 @ '' --histfile='' @ hf);
                    cmd2 = (if prompt = [] then cmd1
                            else cmd1 @ '' --prompt='' @ SQ @ prompt @ SQ);
                    cmd3 = cmd2 @ '' '' @ sockpath
                in invoke (UnetRunInWindow cmd3 title) w2)))"

text \<open>
  \<open>re.match(r"^(\S+)(?:\s+(.*))?$", line)\<close> on a stripped line: the first group is
  the leading run of non-space characters, the second what follows the white space
  after it; \<open>.\<close> does not match a newline, so a newline there makes the match fail.
\<close>

definition match_line :: "string \<Rightarrow> (string \<times> string option) option" where
  "match_line line =
     (let g1 = takeWhile (\<lambda>c. \<not> isspace c) line;
          r = dropWhile (\<lambda>c. \<not> isspace c) line
      in if g1 = [] then None
         else if r = [] then Some (g1, None)
         else (let g2 = dropWhile isspace r
               in if CHR 0x0A \<in> set g2 then None else Some (g1, Some g2)))"

text \<open>The window-command branch of \<open>doline\<close>.\<close>

fun lookup_hosts :: "unet \<Rightarrow> string list \<Rightarrow> error + (string \<times> host) list" where
  "lookup_hosts u [] = Inr []"
| "lookup_hosts u (x # xs) =
     (case map_of (hosts u) x of
        None \<Rightarrow> Inl KeyError
      | Some hc \<Rightarrow>
          (case lookup_hosts u xs of
             Inl e \<Rightarrow> Inl e
           | Inr hcs \<Rightarrow> Inr ((x, hc) # hcs)))"

fun launch_windows :: "window_cmd \<Rightarrow> (string \<times> host) list \<Rightarrow> world \<Rightarrow> (string + unit) \<times> world" where
  "launch_windows wc [] w = (Inr (), w)"
| "launch_windows wc ((x, hc) # hcs) w =
     (let w1 = invoke (RunInWindow x (wc_shell wc) (wc_kwargs wc)) w in
      case run_in_window hc (wc_shell wc) (wc_kwargs wc) of
        Inl m \<Rightarrow> (Inl m, w1)
      | Inr _ \<Rightarrow> launch_windows wc hcs w1)"

definition doline_window :: "unet \<Rightarrow> window_cmd \<Rightarrow> string \<Rightarrow> world \<Rightarrow> bool result" where
  "doline_window u wc nline w =
     (let args0 = str_split nline;
          args = (if args0 = [''*''] then sorted_hosts u else args0);
          unknowns = filter (\<lambda>x. \<not> is_host u x) args
      in if unknowns \<noteq> [] then
           write_then (''% Unknown host[s]: '' @ join '' '' unknowns @ NL) True w
         else
           (case lookup_hosts u args of
              Inl e \<Rightarrow> Some (Inl e, w)
            | Inr hcs \<Rightarrow>
                (case launch_windows wc hcs w of
                   (Inl m, w') \<Rightarrow> write_then (''% Error: '' @ m @ NL) True w'
                 | (Inr _, w') \<Rightarrow> Some (Inr True, w'))))"

text \<open>The run-command branches of \<open>doline\<close>, for a registered and for the default command.\<close>

definition doline_run :: "nat \<Rightarrow> unet \<Rightarrow> run_cmd \<Rightarrow> string \<Rightarrow> bool \<Rightarrow> world \<Rightarrow> bool result" where
  "doline_run fuel u rc residual notty w =
     (if rc_interactive rc \<and> notty then
        write_then (''% Error: interactive command must be run from primary CLI'' @ NL) True w
      else
        (case run_command fuel u residual (rc_execfmt rc) (rc_on_host rc) (rc_interactive rc) w of
           None \<Rightarrow> None
         | Some (Inl e, w') \<Rightarrow> Some (Inl e, w')
         | Some (Inr _, w') \<Rightarrow> Some (Inr True, w')))"

definition doline :: "nat \<Rightarrow> unet \<Rightarrow> string \<Rightarrow> bool \<Rightarrow> bool \<Rightarrow> world \<Rightarrow> bool result" where
  "doline fuel u line0 background notty w =
     (let line = strip line0 in
      case match_line line of
        None \<Rightarrow> Some (Inr True, w)
      | Some (cmd, g2) \<Rightarrow>
          (let nline = (case g2 of None \<Rightarrow> [] | Some s \<Rightarrow> s) in
           if cmd = ''q'' \<or> cmd = ''quit'' then Some (Inr False, w)
           else if cmd = ''help'' then
             (case make_help_str u of
                Inl e \<Rightarrow> Some (Inl e, w)
              | Inr s \<Rightarrow> write_then s True w)
           else if cmd = ''h'' \<or> cmd = ''hosts'' then
             write_then (''% Hosts:'' @ TAB @ join '' '' (sorted_hosts u) @ NL) True w
           else if cmd = ''cli'' then
             Some (Inr True, remote_cli u ''secondary> '' ''Secondary CLI'' background w)
           else
             (case map_of (cli_in_window_cmds u) cmd of
                Some wc \<Rightarrow> doline_window u wc nline w
              | None \<Rightarrow>
                  (case map_of (cli_run_cmds u) (Some cmd) of
                     Some rc \<Rightarrow> doline_run fuel u rc nline notty w
                   | None \<Rightarrow>
                       (case map_of (cli_run_cmds u) None of
                          Some rc \<Rightarrow> doline_run fuel u rc line notty w
                        | None \<Rightarrow>
                            write_then (''% Unknown command: '' @ line @ NL) True w)))))"

section \<open>The control socket\<close>

definition ENDMARKER :: string where
  "ENDMARKER = [CHR 0x00, CHR ''E'', CHR ''N'', CHR ''D'', CHR 0x00]"

text \<open>
  \<open>b.decode("utf-8")\<close> and \<open>s.encode("utf-8")\<close>. A byte below 0x80 is its own code
  point; the lead bytes 0xC2 and 0xC3 with one continuation byte give the code points
  0x80 to 0xFF. A lead byte from 0xC4 to 0xF4 starts, when what follows is well formed,
  a code point of 256 or more, which a \<open>char\<close> does not hold: there the model ends with
  \<open>UnsupportedCodePoint\<close>, whatever follows. Any other byte raises UnicodeDecodeError.
\<close>

fun utf8_decode :: "string \<Rightarrow> error + string" where
  "utf8_decode [] = Inr []"
| "utf8_decode (b # bs) =
     (if of_char b < (0x80::nat) then
        (case utf8_decode bs of Inl e \<Rightarrow> Inl e | Inr s \<Rightarrow> Inr (b # s))
      else if of_char b = (0xC2::nat) \<or> of_char b = (0xC3::nat) then
        (case bs of
           [] \<Rightarrow> Inl UnicodeDecodeError
         | c # cs \<Rightarrow>
             if (0x80::nat) \<le> of_char c \<and> of_char c < (0xC0::nat) then
               (case utf8_decode cs of
                  Inl e \<Rightarrow> Inl e
                | Inr s \<Rightarrow>
                    Inr ((if of_char b = (0xC2::nat) then c else char_of (of_char c + (64::nat))) # s))
             else Inl UnicodeDecodeError)
      else if (0xC4::nat) \<le> of_char b \<and> of_char b \<le> (0xF4::nat) then Inl UnsupportedCodePoint
      else Inl UnicodeDecodeError)"

definition utf8_encode :: "string \<Rightarrow> string" where
  "utf8_encode s =
     concat (map (\<lambda>c. if of_char c < (0x80::nat) then [c]
                       else if of_char c < (0xC0::nat) then [CHR 0xC2, c]
                       else [CHR 0xC3, char_of (of_char c - (64::nat))]) s)"

text \<open>
  \<open>cli_client_connected\<close>, run on the lines \<open>reader.readline()\<close> returns; an empty one,
  or the end of the list, is the peer closing the connection. The sink of the world is
  the \<open>writer\<close> of the connection.
\<close>

fun cli_client_connected :: "nat \<Rightarrow> unet \<Rightarrow> bool \<Rightarrow> string list \<Rightarrow> world \<Rightarrow> unit result" where
  "cli_client_connected fuel u background [] w = Some (Inr (), w)"
| "cli_client_connected fuel u background (raw # rest) w =
     (if raw = [] then Some (Inr (), w)
      else
        (case utf8_decode raw of
           Inl e \<Rightarrow> Some (Inl e, w)
         | Inr text \<Rightarrow>
             (case doline fuel u (strip text) background True w of
                None \<Rightarrow> None
              | Some (Inl e, w') \<Rightarrow> Some (Inl e, w')
              | Some (Inr False, w') \<Rightarrow> Some (Inr (), w')
              | Some (Inr True, w') \<Rightarrow>
                  (case outf_ops [WriteBytes ENDMARKER, Drain] w' of
                     (Inl e, w'') \<Rightarrow> Some (Inl e, w'')
                   | (Inr _, w'') \<Rightarrow> cli_client_connected fuel u background rest w''))))"

text \<open>
  The client. \<open>bendswith\<close> and the loop that collects one response from what
  \<open>sock.recv\<close> returns; an empty chunk, or the end of the list, is the server closing.
\<close>

definition bendswith :: "string \<Rightarrow> string \<Rightarrow> bool" where
  "bendswith b sentinel =
     (length sentinel \<le> length b
      \<and> (if sentinel = [] then b else drop (length b - length sentinel) b) = sentinel)"

fun collect :: "string \<Rightarrow> string list \<Rightarrow> (string \<times> string list) option" where
  "collect rb chunks =
     (if bendswith rb ENDMARKER then Some (rb, chunks)
      else (case chunks of
              [] \<Rightarrow> None
            | lb # rest \<Rightarrow> if lb = [] then None else collect (rb @ lb) rest))"

text \<open>
  \<open>cli_client\<close>, run on the lines typed at the prompt: the byte strings it sends, the
  texts it prints (after its banner), and the exception that ends it, if one does.
\<close>

fun cli_client :: "string list \<Rightarrow> string list \<Rightarrow> (string list \<times> string list) \<times> error option" where
  "cli_client [] chunks = (([], []), None)"
| "cli_client (line # rest) chunks =
     (case collect [] chunks of
        None \<Rightarrow> (([utf8_encode (line @ NL)], []), None)
      | Some (rb, chunks') \<Rightarrow>
          (case utf8_decode (take (length rb - length ENDMARKER) rb) of
             Inl e \<Rightarrow> (([utf8_encode (line @ NL)], []), Some e)
           | Inr text \<Rightarrow>
               (case cli_client rest chunks' of
                  ((sent, printed), r) \<Rightarrow>
                    ((utf8_encode (line @ NL) # sent, text # printed), r))))"

section \<open>Sample sessions\<close>

text \<open>
  Hosts for the examples: one whose commands succeed and print \<open>ok\<close>, one whose
  commands exit with status 1 and print nothing, one whose captured run faults; each
  opens an interactive child that prints \<open>$\<close> once and exits.
\<close>

definition demo_child :: "nat \<Rightarrow> tick" where
  "demo_child k = (if k = 0 then FromMaster ''$'' else Exited)"

definition ok_host :: host where
  "ok_host = \<lparr>async_cmd_status = (\<lambda>c. Inr (0, ''ok'' @ NL)),
              async_cmd_status_host = (\<lambda>c. Inr (0, ''ok'' @ NL)),
              popen = (\<lambda>c s. Inr demo_child),
              run_in_window = (\<lambda>c k. Inr ())\<rparr>"

definition failing_host :: host where
  "failing_host = \<lparr>async_cmd_status = (\<lambda>c. Inr (1, [])),
                   async_cmd_status_host = (\<lambda>c. Inr (1, [])),
                   popen = (\<lambda>c s. Inr demo_child),
                   run_in_window = (\<lambda>c k. Inr ())\<rparr>"

definition faulty_host :: host where
  "faulty_host = \<lparr>async_cmd_status = (\<lambda>c. Inl ''timeout''),
                  async_cmd_status_host = (\<lambda>c. Inl ''timeout''),
                  popen = (\<lambda>c s. Inl ''timeout''),
                  run_in_window = (\<lambda>c k. Inl ''timeout'')\<rparr>"

text \<open>The format \<open>bash -c '{}'\<close>, the default of \<open>run_command\<close>.\<close>

definition bash_fmt :: string where
  "bash_fmt = ''bash -c '' @ SQ @ ''{}'' @ SQ"

text \<open>
  A session with the hosts \<open>r1\<close> and \<open>r2\<close>, the run-commands \<open>sh\<close> (captured), \<open>shi\<close>
  (interactive) and \<open>hosts\<close> (captured, under the name of a builtin), and the
  window-command \<open>term\<close>.
\<close>

definition demo_unet :: unet where
  "demo_unet = \<lparr>hosts = [(''r1'', ok_host), (''r2'', ok_host)],
                cli_run_cmds =
                  [(Some ''sh'', \<lparr>rc_cmdfmt = ''sh [hosts] <shell-command>'',
                                  rc_cmdhelp = ''execute <shell-command> on hosts'',
                                  rc_execfmt = bash_fmt, rc_on_host = False,
                                  rc_interactive = False\<rparr>),
                   (Some ''shi'', \<lparr>rc_cmdfmt = ''shi [hosts] <shell-command>'',
                                   rc_cmdhelp = ''execute <shell-command> in a pty'',
                                   rc_execfmt = bash_fmt, rc_on_host = False,
                                   rc_interactive = True\<rparr>),
                   (Some ''hosts'', \<lparr>rc_cmdfmt = ''hosts'',
                                     rc_cmdhelp = ''print the host name'',
                                     rc_execfmt = ''hostname'', rc_on_host = False,
                                     rc_interactive = False\<rparr>)],
                cli_in_window_cmds =
                  [(''term'', \<lparr>wc_cmdfmt = ''term [hosts]'',
                               wc_cmdhelp = ''open terminal[s] on hosts'',
                               wc_shell = ''bash'', wc_kwargs = []\<rparr>)],
                unet_instance = ''0'',
                cli_histfile = None,
                async_get_exec_path = Inr ''/usr/bin/python3'',
                unet_run_in_window = (\<lambda>c t. Inr ())\<rparr>"

text \<open>The same session with \<open>r1\<close> faulting and \<open>r2\<close> exiting with status 1.\<close>

definition faulty_unet :: unet where
  "faulty_unet = demo_unet\<lparr>hosts := [(''r1'', faulty_host), (''r2'', failing_host)]\<rparr>"

text \<open>The same session with \<open>r1\<close> succeeding and \<open>r2\<close> faulting.\<close>

definition half_faulty_unet :: unet where
  "half_faulty_unet = demo_unet\<lparr>hosts := [(''r1'', ok_host), (''r2'', faulty_host)]\<rparr>"

text \<open>
  The world of the local session, with \<open>sys.stdout\<close> for its sink, and the world of a
  socket connection, with the \<open>StreamWriter\<close> for its sink.
\<close>

definition demo_world :: world where
  "demo_world = \<lparr>sink = [], sink_kind = TextSink, calls = [], tty = Settings 0,
                 cli_sockpath = None,
                 stdin_isatty = True, openpty = Inr (),
                 mkdtemp = Inr ''/tmp/pty-0-sockdir'',
                 start_unix_server = Inr (),
                 self_path = ''/munet/cli.py''\<rparr>"

definition socket_world :: world where
  "socket_world = demo_world\<lparr>sink_kind := StreamWriter\<rparr>"

section \<open>Tokens of a line\<close>

text \<open>
  How \<open>str.split\<close>, \<open>str.strip\<close> and the regular expression of \<open>doline\<close> agree on a
  line without a newline: the command token is the first token of the line, and the
  rest of the match splits into the remaining tokens.
\<close>

lemma split_acc_spaces:
  "\<forall>c\<in>set sp. isspace c \<Longrightarrow> split_acc sp w = (if w = [] then [] else [w])"
  by (induction sp arbitrary: w) auto

lemma split_acc_append_spaces:
  "\<forall>c\<in>set sp. isspace c \<Longrightarrow> split_acc (a @ sp) w = split_acc a w"
  by (induction a arbitrary: w) (auto simp: split_acc_spaces)

lemma split_acc_dropWhile:
  "split_acc (dropWhile isspace s) [] = split_acc s []"
  by (induction s) auto

lemma split_acc_word:
  "w \<noteq> [] \<Longrightarrow>
   split_acc s w = (w @ takeWhile (\<lambda>c. \<not> isspace c) s) # split_acc (dropWhile (\<lambda>c. \<not> isspace c) s) []"
  by (induction s arbitrary: w) auto

lemma str_split_decomp:
  "str_split line =
     (let s1 = dropWhile isspace line
      in if s1 = [] then []
         else takeWhile (\<lambda>c. \<not> isspace c) s1 # str_split (dropWhile (\<lambda>c. \<not> isspace c) s1))"
proof -
  let ?s1 = "dropWhile isspace line"
  have a: "str_split line = split_acc ?s1 []"
    by (simp add: str_split_def split_acc_dropWhile)
  show ?thesis
  proof (cases ?s1)
    case Nil
    then show ?thesis using a by (simp del: dropWhile_eq_Nil_conv)
  next
    case (Cons c cs)
    then have "\<not> isspace c"
      by (metis hd_dropWhile list.sel(1) list.distinct(1))
    then have "split_acc ?s1 [] = takeWhile (\<lambda>c. \<not> isspace c) ?s1 # split_acc (dropWhile (\<lambda>c. \<not> isspace c) ?s1) []"
      using Cons by (simp add: split_acc_word)
    then show ?thesis using a Cons by (simp add: str_split_def Let_def)
  qed
qed

lemma strip_rstrip: "strip line = rstrip (dropWhile isspace line)"
  by (simp add: strip_def)

lemma rstrip_decomp: "\<exists>sp. x = rstrip x @ sp \<and> (\<forall>c\<in>set sp. isspace c)"
proof -
  have "rev x = takeWhile isspace (rev x) @ dropWhile isspace (rev x)" by simp
  then have "x = rev (dropWhile isspace (rev x)) @ rev (takeWhile isspace (rev x))"
    by (metis rev_append rev_rev_ident)
  moreover have "\<forall>c\<in>set (rev (takeWhile isspace (rev x))). isspace c"
    by (auto dest: set_takeWhileD)
  ultimately show ?thesis unfolding rstrip_def by blast
qed

lemma rstrip_append:
  assumes "g \<noteq> []" "\<not> isspace (last g)"
  shows "rstrip (g @ r) = g @ rstrip r"
proof -
  have "dropWhile isspace (rev g) = rev g"
    using assms by (cases "rev g") (auto simp: last_rev hd_rev)
  then show ?thesis
    using assms by (simp add: rstrip_def dropWhile_append)
qed

lemma str_split_rstrip: "str_split (rstrip x) = str_split x"
proof -
  obtain sp where "x = rstrip x @ sp" "\<forall>c\<in>set sp. isspace c"
    using rstrip_decomp by blast
  then show ?thesis
    by (metis split_acc_append_spaces str_split_def)
qed

lemma str_split_dropWhile: "str_split (dropWhile isspace s) = str_split s"
  by (simp add: str_split_def split_acc_dropWhile)

lemma match_line_split:
  assumes nl: "CHR 0x0A \<notin> set line" and sp: "str_split line = cmd # rest"
  shows "\<exists>g2. match_line (strip line) = Some (cmd, g2)
             \<and> str_split (case g2 of None \<Rightarrow> [] | Some s \<Rightarrow> s) = rest"
proof -
  define s1 where "s1 = dropWhile isspace line"
  define g where "g = takeWhile (\<lambda>c. \<not> isspace c) s1"
  define r where "r = dropWhile (\<lambda>c. \<not> isspace c) s1"
  define r' where "r' = rstrip r"
  from sp have s1: "s1 \<noteq> []" and g: "g = cmd" and r: "str_split r = rest"
    unfolding s1_def g_def r_def
    by (auto simp: str_split_decomp [of line] Let_def split: if_splits)
  have hd1: "\<not> isspace (hd s1)" using s1 unfolding s1_def by (metis hd_dropWhile)
  have gne: "g \<noteq> []" using s1 hd1 unfolding g_def by (cases s1) auto
  have gall: "\<forall>c\<in>set g. \<not> isspace c" unfolding g_def by (auto dest: set_takeWhileD)
  have lastg: "\<not> isspace (last g)" using gne gall last_in_set by blast
  have s1gr: "s1 = g @ r" unfolding g_def r_def by simp
  have st: "strip line = g @ r'"
    using rstrip_append [OF gne lastg, of r] s1gr
    by (simp add: strip_rstrip s1_def [symmetric] r'_def)
  obtain spc where dec: "r = r' @ spc" unfolding r'_def by (metis rstrip_decomp)
  have hdr: "isspace (hd r')" if ne: "r' \<noteq> []"
  proof -
    have "r \<noteq> []" using ne dec by (metis append_is_Nil_conv)
    then have "isspace (hd r)" unfolding r_def using hd_dropWhile [of "\<lambda>c. \<not> isspace c" s1] by blast
    moreover have "hd r = hd r'" using ne dec by (metis hd_append2)
    ultimately show ?thesis by simp
  qed
  have tw: "takeWhile (\<lambda>c. \<not> isspace c) (strip line) = g"
    unfolding st using gall hdr by (cases r') (auto simp: takeWhile_append)
  have dw: "dropWhile (\<lambda>c. \<not> isspace c) (strip line) = r'"
    unfolding st using gall hdr by (cases r') (auto simp: dropWhile_append)
  have sub: "set (dropWhile isspace r') \<subseteq> set line"
  proof -
    have "set (dropWhile isspace r') \<subseteq> set r'"
      by (auto dest: set_dropWhileD)
    also have "\<dots> \<subseteq> set r" using dec by (metis set_append Un_upper1)
    also have "\<dots> \<subseteq> set s1" using s1gr by auto
    also have "\<dots> \<subseteq> set line" unfolding s1_def by (auto dest: set_dropWhileD)
    finally show ?thesis .
  qed
  show ?thesis
  proof (cases "r' = []")
    case True
    then have "match_line (strip line) = Some (cmd, None)"
      using tw dw gne g by (simp add: match_line_def Let_def)
    moreover have "str_split r = []"
      using True str_split_rstrip [of r] by (simp add: str_split_def r'_def)
    ultimately show ?thesis using r by (auto simp: str_split_def)
  next
    case False
    have "CHR 0x0A \<notin> set (dropWhile isspace r')" using sub nl by blast
    then have "match_line (strip line) = Some (cmd, Some (dropWhile isspace r'))"
      using tw dw gne g False by (simp add: match_line_def Let_def)
    moreover have "str_split (dropWhile isspace r') = rest"
      using r by (simp add: str_split_dropWhile str_split_rstrip r'_def)
    ultimately show ?thesis by auto
  qed
qed

section \<open>Writing to the sink\<close>

lemma outf_ops_frame:
  "outf_ops ops w = (r, w') \<Longrightarrow> \<exists>taken. w' = w\<lparr>sink := sink w @ taken\<rparr>"
proof (induction ops arbitrary: w)
  case Nil
  then have "w' = w\<lparr>sink := sink w @ []\<rparr>" by simp
  then show ?case by blast
next
  case (Cons x xs)
  show ?case
  proof (cases "sink_raises (sink_kind w) x")
    case None
    then have "outf_ops xs (w\<lparr>sink := sink w @ [x]\<rparr>) = (r, w')"
      using Cons.prems by simp
    from Cons.IH [OF this] obtain taken
      where "w' = w\<lparr>sink := sink w @ [x]\<rparr>\<lparr>sink := sink (w\<lparr>sink := sink w @ [x]\<rparr>) @ taken\<rparr>"
      by blast
    then have "w' = w\<lparr>sink := sink w @ (x # taken)\<rparr>" by simp
    then show ?thesis by blast
  next
    case (Some e)
    then have "w' = w\<lparr>sink := sink w @ []\<rparr>" using Cons.prems by simp
    then show ?thesis by blast
  qed
qed

lemma outf_ops_text:
  "sink_kind w = TextSink \<Longrightarrow> \<forall>x\<in>set ops. sink_raises TextSink x = None \<Longrightarrow>
   outf_ops ops w = (Inr (), w\<lparr>sink := sink w @ ops\<rparr>)"
  by (induction ops arbitrary: w) auto

lemma write_then_text:
  "sink_kind w = TextSink \<Longrightarrow>
   write_then s v w = Some (Inr v, w\<lparr>sink := sink w @ [Write s]\<rparr>)"
  by (simp add: write_then_def outf_write_def)

lemma write_then_stream:
  "sink_kind w = StreamWriter \<Longrightarrow> write_then s v w = Some (Inl TypeError, w)"
  by (simp add: write_then_def outf_write_def)

lemma write_then_frame:
  assumes "write_then s v w = Some (r, w')"
  shows "\<exists>taken. w' = w\<lparr>sink := sink w @ taken\<rparr>"
proof -
  obtain r0 w0 where o: "outf_ops [Write s] w = (r0, w0)"
    by (cases "outf_ops [Write s] w")
  then have "w' = w0"
    using assms by (cases r0) (auto simp: write_then_def outf_write_def)
  then show ?thesis using outf_ops_frame [OF o] by simp
qed

section \<open>The dispatcher\<close>

lemma doline_parsed:
  assumes "match_line (strip line) = Some (cmd, g2)"
  shows "doline fuel u line background notty w =
     (let nline = (case g2 of None \<Rightarrow> [] | Some s \<Rightarrow> s) in
           if cmd = ''q'' \<or> cmd = ''quit'' then Some (Inr False, w)
           else if cmd = ''help'' then
             (case make_help_str u of
                Inl e \<Rightarrow> Some (Inl e, w)
              | Inr s \<Rightarrow> write_then s True w)
           else if cmd = ''h'' \<or> cmd = ''hosts'' then
             write_then (''% Hosts:'' @ TAB @ join '' '' (sorted_hosts u) @ NL) True w
           else if cmd = ''cli'' then
             Some (Inr True, remote_cli u ''secondary> '' ''Secondary CLI'' background w)
           else
             (case map_of (cli_in_window_cmds u) cmd of
                Some wc \<Rightarrow> doline_window u wc nline w
              | None \<Rightarrow>
                  (case map_of (cli_run_cmds u) (Some cmd) of
                     Some rc \<Rightarrow> doline_run fuel u rc nline notty w
                   | None \<Rightarrow>
                       (case map_of (cli_run_cmds u) None of
                          Some rc \<Rightarrow> doline_run fuel u rc (strip line) notty w
                        | None \<Rightarrow>
                            write_then (''% Unknown command: '' @ strip line @ NL) True w))))"
  using assms unfolding doline_def Let_def by simp

lemma remote_cli_sink: "sink (remote_cli u p t b w) = sink w"
  by (simp add: remote_cli_def invoke_def Let_def split: sum.splits option.splits)

lemma remote_cli_calls:
  "filter host_event (calls (remote_cli u p t b w)) = filter host_event (calls w)"
  by (simp add: remote_cli_def invoke_def Let_def split: sum.splits option.splits)

lemma remote_cli_registry:
  "remote_cli (u\<lparr>cli_run_cmds := R, cli_in_window_cmds := W\<rparr>) p t b w = remote_cli u p t b w"
  by (simp add: remote_cli_def cong: sum.case_cong)

text \<open>
  A line that resolves to a run-command with the interactive flag, the one registered
  under its command token or else the default one, and is dispatched with \<open>notty\<close>
  set: \<open>doline\<close> writes the error line and returns, and what it returns and leaves is
  what that write returns and leaves. \<open>run_command\<close> is not entered and no operation
  of a host is invoked.
\<close>

lemma interactive_not_run:
  assumes "CHR 0x0A \<notin> set line" and "str_split line = cmd # rest"
    and "cmd \<notin> {''q'', ''quit'', ''help'', ''h'', ''hosts'', ''cli''}"
    and "map_of (cli_in_window_cmds u) cmd = None"
    and "map_of (cli_run_cmds u) (Some cmd) = Some rc
         \<or> (map_of (cli_run_cmds u) (Some cmd) = None \<and> map_of (cli_run_cmds u) None = Some rc)"
    and "rc_interactive rc"
  shows "doline fuel u line background True w =
         write_then (''% Error: interactive command must be run from primary CLI'' @ NL) True w"
proof -
  obtain g2 where m: "match_line (strip line) = Some (cmd, g2)"
    using match_line_split [OF assms(1,2)] by blast
  show ?thesis
    using assms(3-6) by (auto simp: doline_parsed [OF m] doline_run_def)
qed

text \<open>
  On a text sink that is the error line and continue; on the \<open>StreamWriter\<close> of a
  socket connection it is TypeError, with nothing written.
\<close>

lemma interactive_refused_locally:
  assumes "CHR 0x0A \<notin> set line" and "str_split line = cmd # rest"
    and "cmd \<notin> {''q'', ''quit'', ''help'', ''h'', ''hosts'', ''cli''}"
    and "map_of (cli_in_window_cmds u) cmd = None"
    and "map_of (cli_run_cmds u) (Some cmd) = Some rc
         \<or> (map_of (cli_run_cmds u) (Some cmd) = None \<and> map_of (cli_run_cmds u) None = Some rc)"
    and "rc_interactive rc"
    and "sink_kind w = TextSink"
  shows "doline fuel u line background True w =
         Some (Inr True,
               w\<lparr>sink := sink w @
                 [Write (''% Error: interactive command must be run from primary CLI'' @ NL)]\<rparr>)"
  using interactive_not_run [OF assms(1-6)] write_then_text [OF assms(7)] by simp

lemma interactive_raises_on_stream:
  assumes "CHR 0x0A \<notin> set line" and "str_split line = cmd # rest"
    and "cmd \<notin> {''q'', ''quit'', ''help'', ''h'', ''hosts'', ''cli''}"
    and "map_of (cli_in_window_cmds u) cmd = None"
    and "map_of (cli_run_cmds u) (Some cmd) = Some rc
         \<or> (map_of (cli_run_cmds u) (Some cmd) = None \<and> map_of (cli_run_cmds u) None = Some rc)"
    and "rc_interactive rc"
    and "sink_kind w = StreamWriter"
  shows "doline fuel u line background True w = Some (Inl TypeError, w)"
  using interactive_not_run [OF assms(1-6)] write_then_stream [OF assms(7)] by simp

text \<open>
  Claim C5: an interactive run-command dispatched on a session flagged non-interactive
  (the socket path, \<open>notty\<close> set) writes a single inline error to the sink and returns
  continue, without running anything. \<open>notty\<close> is set by the socket server only, and
  there the sink is the \<open>StreamWriter\<close> of the connection. For \<open>shi r1 bash\<close>, with
  \<open>shi\<close> interactive, nothing is run, but writing the error line raises TypeError:
  the line is not written, \<open>doline\<close> does not return continue, and the exception ends
  the handler of the connection before any sentinel.
\<close>

theorem interactive_on_socket_raises:
  "doline 0 demo_unet ''shi r1 bash'' False True socket_world = Some (Inl TypeError, socket_world)
   \<and> cli_client_connected 0 demo_unet False [''shi r1 bash'' @ NL] socket_world
     = Some (Inl TypeError, socket_world)"
  by code_simp

text \<open>
  Claim C10: a window-command dispatched with nothing after its command token has an
  empty host list: no window is launched, nothing is written to the sink, and
  \<open>doline\<close> returns continue.
\<close>

theorem window_no_hosts:
  assumes "CHR 0x0A \<notin> set line" and "str_split line = [cmd]"
    and "cmd \<notin> {''q'', ''quit'', ''help'', ''h'', ''hosts'', ''cli''}"
    and "map_of (cli_in_window_cmds u) cmd = Some wc"
  shows "doline fuel u line background notty w = Some (Inr True, w)"
proof -
  obtain g2 where m: "match_line (strip line) = Some (cmd, g2)"
    and r: "str_split (case g2 of None \<Rightarrow> [] | Some s \<Rightarrow> s) = []"
    using match_line_split [OF assms(1,2)] by blast
  have "doline_window u wc (case g2 of None \<Rightarrow> [] | Some s \<Rightarrow> s) w = Some (Inr True, w)"
    using r by (simp add: doline_window_def)
  then show ?thesis
    using assms(3,4) by (simp add: doline_parsed [OF m])
qed

text \<open>
  Claim C9: a line whose first token is \<open>q\<close>, \<open>quit\<close>, \<open>help\<close>, \<open>h\<close>, \<open>hosts\<close> or
  \<open>cli\<close> gets the builtin behaviour: stop; the help text; the host list; the secondary
  window. No operation of a host is invoked, and apart from \<open>help\<close>, which prints the
  registry, the outcome is the same for any registry: a command registered under the
  name of a builtin is never run.
\<close>

theorem builtins_shadow:
  assumes "CHR 0x0A \<notin> set line" and "str_split line = cmd # rest"
  shows "(cmd = ''q'' \<or> cmd = ''quit'' \<longrightarrow>
            doline fuel u line background notty w = Some (Inr False, w))
       \<and> (cmd = ''help'' \<longrightarrow>
            doline fuel u line background notty w =
              (case make_help_str u of
                 Inl e \<Rightarrow> Some (Inl e, w)
               | Inr s \<Rightarrow> write_then s True w))
       \<and> (cmd = ''h'' \<or> cmd = ''hosts'' \<longrightarrow>
            doline fuel u line background notty w =
              write_then (''% Hosts:'' @ TAB @ join '' '' (sorted_hosts u) @ NL) True w)
       \<and> (cmd = ''cli'' \<longrightarrow>
            doline fuel u line background notty w =
              Some (Inr True, remote_cli u ''secondary> '' ''Secondary CLI'' background w))
       \<and> (cmd \<in> {''q'', ''quit'', ''help'', ''h'', ''hosts'', ''cli''} \<longrightarrow>
            (\<forall>r w'. doline fuel u line background notty w = Some (r, w') \<longrightarrow>
               filter host_event (calls w') = filter host_event (calls w)))
       \<and> (cmd \<in> {''q'', ''quit'', ''h'', ''hosts'', ''cli''} \<longrightarrow>
            doline fuel (u\<lparr>cli_run_cmds := R, cli_in_window_cmds := W\<rparr>) line background notty w
            = doline fuel u line background notty w)"
proof -
  obtain g2 where m: "match_line (strip line) = Some (cmd, g2)"
    using match_line_split [OF assms] by blast
  show ?thesis
    by (auto simp: doline_parsed [OF m] remote_cli_calls sorted_hosts_def
          remote_cli_registry split: sum.splits dest!: write_then_frame)
qed

theorem window_no_hosts_witness:
  "doline 0 demo_unet ''term'' False False demo_world = Some (Inr True, demo_world)"
proof -
  have h1: "CHR 0x0A \<notin> set ''term''" by simp
  have h2: "str_split ''term'' = [''term'']" by code_simp
  have h3: "''term'' \<notin> {''q'', ''quit'', ''help'', ''h'', ''hosts'', ''cli''}" by simp
  have h4: "map_of (cli_in_window_cmds demo_unet) ''term'' = Some \<lparr>wc_cmdfmt = ''term [hosts]'',
                               wc_cmdhelp = ''open terminal[s] on hosts'',
                               wc_shell = ''bash'', wc_kwargs = []\<rparr>" by (simp add: demo_unet_def)
  show ?thesis
    using window_no_hosts [OF h1 h2 h3 h4] by simp
qed

theorem builtins_shadow_witness:
  "map_of (cli_run_cmds demo_unet) (Some ''hosts'') \<noteq> None
   \<and> doline 0 demo_unet ''hosts r1'' False False demo_world =
       Some (Inr True, demo_world\<lparr>sink := [Write (''% Hosts:'' @ TAB @ ''r1 r2'' @ NL)]\<rparr>)"
proof -
  have h1: "CHR 0x0A \<notin> set ''hosts r1''" by simp
  have h2: "str_split ''hosts r1'' = ''hosts'' # [''r1'']" by code_simp
  have h3: "sorted_hosts demo_unet = [''r1'', ''r2'']" by code_simp
  have h4: "map_of (cli_run_cmds demo_unet) (Some ''hosts'') \<noteq> None" by (simp add: demo_unet_def)
  show ?thesis
    using builtins_shadow [OF h1 h2, of 0 demo_unet False False demo_world] h3 h4
    by (simp add: write_then_text demo_world_def)
qed

section \<open>Target hosts and residual command\<close>

lemma is_host_iff: "is_host u x \<longleftrightarrow> x \<in> fst ` set (hosts u)"
  by (simp add: is_host_def map_of_eq_None_iff)

lemma sorted_hosts_known: "x \<in> set (sorted_hosts u) \<Longrightarrow> is_host u x"
  by (simp add: sorted_hosts_def is_host_iff)

lemma scan_hosts_break:
  "\<exists>e\<in>set ts. \<not> is_host u e \<Longrightarrow>
   scan_hosts u ts k i = k + length (takeWhile (is_host u) ts)"
  by (induction ts arbitrary: k i) auto

lemma scan_hosts_exhausted:
  "\<forall>e\<in>set ts. is_host u e \<Longrightarrow>
   scan_hosts u ts k i = (if ts = [] then i else k + length ts - 1)"
  by (induction ts arbitrary: k i) auto

lemma scan_hosts_le:
  "scan_hosts u ts k i \<le> max i (k + length (takeWhile (is_host u) ts))"
proof (induction ts arbitrary: k i)
  case Nil
  then show ?case by simp
next
  case (Cons e es)
  show ?case
  proof (cases "is_host u e")
    case True
    have "scan_hosts u es (Suc k) k \<le> max k (Suc k + length (takeWhile (is_host u) es))"
      by (rule Cons.IH)
    then show ?thesis using True by simp
  next
    case False
    then show ?thesis by simp
  qed
qed

lemma take_takeWhile_known:
  assumes "i \<le> length (takeWhile P ts)"
  shows "\<forall>x\<in>set (take i ts). P x"
proof -
  have "take i ts = take i (takeWhile P ts @ dropWhile P ts)" by simp
  also have "\<dots> = take i (takeWhile P ts)" using assms by (simp del: takeWhile_dropWhile_id)
  finally have "set (take i ts) \<subseteq> set (takeWhile P ts)" by (metis set_take_subset)
  then show ?thesis by (auto dest: set_takeWhileD)
qed

lemma host_cmd_split_known:
  "\<forall>x\<in>set (fst (host_cmd_split u line)). is_host u x"
proof -
  have "scan_hosts u (str_split line) 0 0 \<le> length (takeWhile (is_host u) (str_split line))"
    using scan_hosts_le [of u "str_split line" 0 0] by simp
  then have "\<forall>x\<in>set (take (scan_hosts u (str_split line) 0 0) (str_split line)). is_host u x"
    by (rule take_takeWhile_known)
  then show ?thesis
    by (auto simp: host_cmd_split_def Let_def sorted_hosts_known)
qed

lemma host_cmd_split_agrees:
  assumes "\<exists>e\<in>set (str_split cmd). \<not> is_host u e"
  shows "host_cmd_split u cmd = spec_host_cmd_split u cmd"
proof -
  let ?ts = "str_split cmd"
  have i: "scan_hosts u ?ts 0 0 = length (takeWhile (is_host u) ?ts)"
    using scan_hosts_break [OF assms, of 0 0] by simp
  have t: "take (length (takeWhile (is_host u) ?ts)) ?ts = takeWhile (is_host u) ?ts"
    by (rule takeWhile_eq_take [symmetric])
  have d: "drop (length (takeWhile (is_host u) ?ts)) ?ts = dropWhile (is_host u) ?ts"
    by (rule dropWhile_eq_drop [symmetric])
  show ?thesis
    unfolding host_cmd_split_def spec_host_cmd_split_def Let_def i t d ..
qed

text \<open>When every token is a host, the last one is taken for the command.\<close>

lemma host_cmd_split_exhausted:
  assumes "\<forall>e\<in>set (str_split cmd). is_host u e" and "str_split cmd \<noteq> []"
  shows "host_cmd_split u cmd =
           (if butlast (str_split cmd) = [] then sorted_hosts u else butlast (str_split cmd),
            last (str_split cmd))"
proof -
  let ?ts = "str_split cmd"
  have i: "scan_hosts u ?ts 0 0 = length ?ts - 1"
    using scan_hosts_exhausted [OF assms(1), of 0 0] assms(2) by simp
  have t: "take (length ?ts - 1) ?ts = butlast ?ts"
    by (simp add: butlast_conv_take)
  have "drop (length ?ts - 1) ?ts = [last ?ts]"
    using assms(2) by (metis append_butlast_last_id append_eq_conv_conj length_butlast)
  then have d: "join '' '' (drop (length ?ts - 1) ?ts) = last ?ts" by simp
  show ?thesis
    unfolding host_cmd_split_def Let_def i t d ..
qed

text \<open>
  Claim C2: the target host list is the longest prefix of the tokens that are host
  names and the command is the remaining tokens joined, all hosts being targeted when
  that prefix is empty. On the line \<open>r1 r2\<close>, both tokens being hosts, the rule gives
  the targets \<open>r1\<close>, \<open>r2\<close> and an empty command; \<open>host_cmd_split\<close> leaves its loop
  with the index of the last token, targets \<open>r1\<close> only and makes \<open>r2\<close> the command.
\<close>

theorem host_cmd_split_only_hosts:
  "host_cmd_split demo_unet ''r1 r2'' = ([''r1''], ''r2'')
   \<and> spec_host_cmd_split demo_unet ''r1 r2'' = ([''r1'', ''r2''], [])"
  by code_simp

section \<open>Captured runs\<close>

lemma mk_aws_known:
  "\<forall>h\<in>set hs. is_host u h \<Longrightarrow>
   \<exists>aws. mk_aws u ucmd on_host hs = Inr aws
       \<and> map fst aws =
           map (\<lambda>h. if on_host then CmdStatusHost h (replace ''%NAME%'' h ucmd)
                    else CmdStatus h (replace ''%NAME%'' h ucmd)) hs"
proof (induction hs)
  case Nil
  then show ?case by simp
next
  case (Cons h hs)
  then obtain aws where a: "mk_aws u ucmd on_host hs = Inr aws"
    and b: "map fst aws =
           map (\<lambda>h. if on_host then CmdStatusHost h (replace ''%NAME%'' h ucmd)
                    else CmdStatus h (replace ''%NAME%'' h ucmd)) hs"
    by auto
  from Cons.prems obtain hc where c: "map_of (hosts u) h = Some hc"
    by (auto simp: is_host_def)
  show ?case using a b c by (simp add: Let_def)
qed

lemma report_calls: "calls (snd (report multi zs w)) = calls w"
proof (induction zs arbitrary: w)
  case Nil
  then show ?case by simp
next
  case (Cons z zs)
  obtain h r where z: "z = (h, r)" by (cases z)
  show ?case
  proof (cases r)
    case (Inl m)
    then show ?thesis using z by simp
  next
    case (Inr x)
    obtain rc out where x: "x = (rc, out)" by (cases x)
    let ?ops = "(if multi then [Write (host_begin h)] else [])
                 @ (if rc \<noteq> 0
                    then [Write (''*** non-zero exit status: '' @ str_of_int rc @ NL)]
                    else [])
                 @ [Write out]
                 @ (if multi then [Write (host_end h)] else [])"
    obtain r0 w0 where o: "outf_ops ?ops w = (r0, w0)" by (cases "outf_ops ?ops w")
    from outf_ops_frame [OF o] have c: "calls w0 = calls w" by auto
    show ?thesis
      using z Inr x o c Cons.IH [of w0] by (cases r0) simp_all
  qed
qed

lemma report_completed:
  assumes "sink_kind w = TextSink"
  shows "report multi (zip hs (map Inr outs)) w =
     (Inr (), w\<lparr>sink := sink w @ concat (map (reported_block multi) (zip hs outs))\<rparr>)"
  using assms
proof (induction hs arbitrary: outs w)
  case Nil
  then show ?case by simp
next
  case (Cons h hs)
  show ?case
  proof (cases outs)
    case Nil
    then show ?thesis by simp
  next
    case (Cons x xs)
    obtain rc out where x: "x = (rc, out)" by (cases x)
    let ?ops = "(if multi then [Write (host_begin h)] else [])
                 @ (if rc \<noteq> 0
                    then [Write (''*** non-zero exit status: '' @ str_of_int rc @ NL)]
                    else [])
                 @ [Write out]
                 @ (if multi then [Write (host_end h)] else [])"
    have o: "outf_ops ?ops w = (Inr (), w\<lparr>sink := sink w @ ?ops\<rparr>)"
      using Cons.prems by (intro outf_ops_text) auto
    have k: "sink_kind (w\<lparr>sink := sink w @ ?ops\<rparr>) = TextSink"
      using Cons.prems by simp
    have b: "reported_block multi (h, rc, out) = ?ops"
      by (simp add: reported_block_def)
    show ?thesis
      using Cons x o b Cons.IH [OF k, of xs]
      by (simp del: append_assoc)
  qed
qed


lemma mk_aws_length: "mk_aws u ucmd on_host hs = Inr aws \<Longrightarrow> length aws = length hs"
  by (induction hs arbitrary: aws) (auto simp: Let_def split: option.splits sum.splits)

text \<open>
  Claim C7, as amended: in a captured run that writes to a text sink and in which
  every targeted host returns a status and an output, the sink receives one block per
  entry of the target list, in order, a host named twice being two entries: with more
  than one entry the begin line, the output (after the status line when the status is
  not zero) and the end line; with one entry the output alone, without bracket lines.
\<close>

theorem captured_blocks:
  assumes "host_cmd_split u line = (hs, ucmd0)"
    and "str_format execfmt ucmd0 = Inr f"
    and "mk_aws u (replace ''%INSTANCE%'' (unet_instance u) f) on_host hs = Inr aws"
    and "map snd aws = map Inr outs"
    and "sink_kind w = TextSink"
  shows "run_command fuel u line execfmt on_host False w =
           Some (Inr (),
                 w\<lparr>sink := sink w @ concat (map (reported_block (1 < length hs)) (zip hs outs)),
                   calls := calls w @ map fst aws\<rparr>)
         \<and> length outs = length hs"
proof -
  have k: "filter (\<lambda>x. \<not> is_host u x) hs = []"
    using host_cmd_split_known [of u line] assms(1) by (simp add: filter_empty_conv)
  have l: "length outs = length hs"
    using mk_aws_length [OF assms(3)] assms(4) by (metis length_map)
  have t: "sink_kind (w\<lparr>calls := calls w @ map fst aws\<rparr>) = TextSink"
    using assms(5) by simp
  show ?thesis
    using assms(1-4) k l
    by (simp add: run_command_def Let_def report_completed [OF t])
qed

theorem captured_blocks_witness:
  "run_command 0 demo_unet ''r1 r2 echo hi'' bash_fmt False False demo_world =
     Some (Inr (),
           demo_world\<lparr>sink := [Write (host_begin ''r1''), Write (''ok'' @ NL), Write (host_end ''r1''),
                               Write (host_begin ''r2''), Write (''ok'' @ NL), Write (host_end ''r2'')],
                        calls := [CmdStatus ''r1'' (''bash -c '' @ SQ @ ''echo hi'' @ SQ),
                                  CmdStatus ''r2'' (''bash -c '' @ SQ @ ''echo hi'' @ SQ)]\<rparr>)
   \<and> run_command 0 demo_unet ''r1 echo hi'' bash_fmt False False demo_world =
     Some (Inr (),
           demo_world\<lparr>sink := [Write (''ok'' @ NL)],
                        calls := [CmdStatus ''r1'' (''bash -c '' @ SQ @ ''echo hi'' @ SQ)]\<rparr>)"
proof -
  let ?c = "''bash -c '' @ SQ @ ''echo hi'' @ SQ"
  have a1: "host_cmd_split demo_unet ''r1 r2 echo hi'' = ([''r1'', ''r2''], ''echo hi'')" by code_simp
  have a2: "str_format bash_fmt ''echo hi'' = Inr ?c" by code_simp
  have a3: "mk_aws demo_unet (replace ''%INSTANCE%'' (unet_instance demo_unet) ?c) False [''r1'', ''r2'']
            = Inr [(CmdStatus ''r1'' ?c, Inr (0, ''ok'' @ NL)), (CmdStatus ''r2'' ?c, Inr (0, ''ok'' @ NL))]"
    by code_simp
  have a4: "map snd [(CmdStatus ''r1'' ?c, Inr (0, ''ok'' @ NL)), (CmdStatus ''r2'' ?c, Inr (0, ''ok'' @ NL))]
            = map Inr [(0, ''ok'' @ NL), (0, ''ok'' @ NL)]" by simp
  have b1: "host_cmd_split demo_unet ''r1 echo hi'' = ([''r1''], ''echo hi'')" by code_simp
  have b3: "mk_aws demo_unet (replace ''%INSTANCE%'' (unet_instance demo_unet) ?c) False [''r1'']
            = Inr [(CmdStatus ''r1'' ?c, Inr (0, ''ok'' @ NL))]"
    by code_simp
  have b4: "map snd [(CmdStatus ''r1'' ?c, Inr (0, ''ok'' @ NL))] = map Inr [(0, ''ok'' @ NL)]" by simp
  have t: "sink_kind demo_world = TextSink" by (simp add: demo_world_def)
  show ?thesis
    using captured_blocks [OF a1 a2 a3 a4 t, of 0]
          captured_blocks [OF b1 a2 b3 b4 t, of 0]
    by (simp add: reported_block_def demo_world_def)
qed

text \<open>
  Claim C7 says one bracketed block per host for every captured run over more than one
  host, and no bracket lines for one host. On \<open>r1 r1 echo hi\<close> the one host \<open>r1\<close> gets
  two bracketed blocks; on \<open>r1 r2 echo hi\<close> with \<open>r2\<close> faulting only \<open>r1\<close> gets a
  block; and on the sink of a socket connection no block is written at all.
\<close>

theorem captured_blocks_not_per_host:
  "run_command 0 demo_unet ''r1 r1 echo hi'' bash_fmt False False demo_world =
     Some (Inr (),
           demo_world\<lparr>sink := [Write (host_begin ''r1''), Write (''ok'' @ NL), Write (host_end ''r1''),
                               Write (host_begin ''r1''), Write (''ok'' @ NL), Write (host_end ''r1'')],
                        calls := [CmdStatus ''r1'' (''bash -c '' @ SQ @ ''echo hi'' @ SQ),
                                  CmdStatus ''r1'' (''bash -c '' @ SQ @ ''echo hi'' @ SQ)]\<rparr>)
   \<and> run_command 0 half_faulty_unet ''r1 r2 echo hi'' bash_fmt False False demo_world =
     Some (Inl TypeError,
           demo_world\<lparr>sink := [Write (host_begin ''r1''), Write (''ok'' @ NL), Write (host_end ''r1'')],
                        calls := [CmdStatus ''r1'' (''bash -c '' @ SQ @ ''echo hi'' @ SQ),
                                  CmdStatus ''r2'' (''bash -c '' @ SQ @ ''echo hi'' @ SQ)]\<rparr>)
   \<and> run_command 0 demo_unet ''r1 r2 echo hi'' bash_fmt False False socket_world =
     Some (Inl TypeError,
           socket_world\<lparr>calls := [CmdStatus ''r1'' (''bash -c '' @ SQ @ ''echo hi'' @ SQ),
                                  CmdStatus ''r2'' (''bash -c '' @ SQ @ ''echo hi'' @ SQ)]\<rparr>)"
  by code_simp

text \<open>
  Claim C6: in a captured run every host that exits with a non-zero status has that
  status reported before its output, and a fault of one host does not keep the others
  from being run and reported. On \<open>r1 r2 false\<close>, with \<open>r1\<close> faulting and \<open>r2\<close>
  exiting with status 1, both commands are run, but unpacking the result of \<open>r1\<close>
  raises TypeError before anything is written: the status of \<open>r2\<close> is never reported
  and the exception leaves \<open>run_command\<close>.
\<close>

theorem run_command_fault_loses_reports:
  "run_command 0 faulty_unet ''r1 r2 false'' bash_fmt False False demo_world
   = Some (Inl TypeError,
           demo_world\<lparr>calls := [CmdStatus ''r1'' (''bash -c '' @ SQ @ ''false'' @ SQ),
                                CmdStatus ''r2'' (''bash -c '' @ SQ @ ''false'' @ SQ)]\<rparr>)"
  by code_simp

subsection \<open>A first token that is no host\<close>

lemma bash_fmt_badhost:
  "str_format bash_fmt ''badhost echo hi'' = Inr (''bash -c '' @ SQ @ ''badhost echo hi'' @ SQ)"
  by code_simp

lemma split_badhost: "str_split ''badhost echo hi'' = [''badhost'', ''echo'', ''hi'']"
  by code_simp

text \<open>
  Claim C1, as amended: for the line \<open>badhost echo hi\<close>, with \<open>badhost\<close> no key of the
  host map, \<open>run_command\<close> finds no unknown host. No token is taken as a host, so the
  targets are all known hosts and the command is the whole line; the captured run of
  every known host is invoked with it, and with no host known nothing is written.
\<close>

theorem unknown_first_token_broadcast:
  assumes "\<not> is_host u ''badhost''"
  shows "host_cmd_split u ''badhost echo hi'' = (sorted_hosts u, ''badhost echo hi'')
       \<and> filter (\<lambda>x. \<not> is_host u x) (fst (host_cmd_split u ''badhost echo hi'')) = []
       \<and> (\<exists>r w'. run_command fuel u ''badhost echo hi'' bash_fmt False False w = Some (r, w')
             \<and> calls w' = calls w @
                 map (\<lambda>h. CmdStatus h
                        (replace ''%NAME%'' h
                           (replace ''%INSTANCE%'' (unet_instance u)
                              (''bash -c '' @ SQ @ ''badhost echo hi'' @ SQ))))
                     (sorted_hosts u))
       \<and> (hosts u = [] \<longrightarrow>
            run_command fuel u ''badhost echo hi'' bash_fmt False False w = Some (Inr (), w))"
proof -
  let ?ucmd = "replace ''%INSTANCE%'' (unet_instance u) (''bash -c '' @ SQ @ ''badhost echo hi'' @ SQ)"
  have s: "host_cmd_split u ''badhost echo hi'' = (sorted_hosts u, ''badhost echo hi'')"
    using assms by (simp add: host_cmd_split_def split_badhost)
  have k: "filter (\<lambda>x. \<not> is_host u x) (sorted_hosts u) = []"
    by (simp add: filter_empty_conv sorted_hosts_known)
  obtain aws where a: "mk_aws u ?ucmd False (sorted_hosts u) = Inr aws"
    and b: "map fst aws = map (\<lambda>h. CmdStatus h (replace ''%NAME%'' h ?ucmd)) (sorted_hosts u)"
    using mk_aws_known [of "sorted_hosts u" u ?ucmd False] sorted_hosts_known by auto
  have r: "run_command fuel u ''badhost echo hi'' bash_fmt False False w =
             Some (report (1 < length (sorted_hosts u)) (zip (sorted_hosts u) (map snd aws))
                     (w\<lparr>calls := calls w @ map fst aws\<rparr>))"
    using s k a by (simp add: run_command_def bash_fmt_badhost)
  have c: "\<exists>r w'. run_command fuel u ''badhost echo hi'' bash_fmt False False w = Some (r, w')
             \<and> calls w' = calls w @ map (\<lambda>h. CmdStatus h (replace ''%NAME%'' h ?ucmd)) (sorted_hosts u)"
  proof -
    obtain r0 w0 where rw: "report (1 < length (sorted_hosts u))
        (zip (sorted_hosts u) (map snd aws)) (w\<lparr>calls := calls w @ map fst aws\<rparr>) = (r0, w0)"
      by (cases "report (1 < length (sorted_hosts u))
        (zip (sorted_hosts u) (map snd aws)) (w\<lparr>calls := calls w @ map fst aws\<rparr>)")
    have "calls w0 = calls w @ map fst aws"
      using report_calls [of "1 < length (sorted_hosts u)" "zip (sorted_hosts u) (map snd aws)"
          "w\<lparr>calls := calls w @ map fst aws\<rparr>"] rw by simp
    then show ?thesis using r rw b by simp
  qed
  have e: "hosts u = [] \<longrightarrow>
            run_command fuel u ''badhost echo hi'' bash_fmt False False w = Some (Inr (), w)"
    using s by (auto simp: run_command_def bash_fmt_badhost sorted_hosts_def)
  show ?thesis using s k c e by simp
qed

theorem unknown_first_token_broadcast_witness:
  "\<not> is_host demo_unet ''badhost''
   \<and> host_cmd_split demo_unet ''badhost echo hi'' = ([''r1'', ''r2''], ''badhost echo hi'')"
proof -
  have h: "\<not> is_host demo_unet ''badhost''" by code_simp
  have s: "sorted_hosts demo_unet = [''r1'', ''r2'']" by code_simp
  show ?thesis
    using unknown_first_token_broadcast [OF h, of 0 demo_world] h s by simp
qed

text \<open>
  Claim C1 says that \<open>badhost echo hi\<close> yields one diagnostic line and no execution.
  In the sample session, where \<open>badhost\<close> is no host, \<open>run_command\<close> runs the line on
  \<open>r1\<close> and \<open>r2\<close> and writes their bracketed outputs instead.
\<close>

theorem badhost_runs_everywhere:
  "\<not> is_host demo_unet ''badhost''
   \<and> run_command 0 demo_unet ''badhost echo hi'' bash_fmt False False demo_world
     = Some (Inr (),
             demo_world\<lparr>sink := [Write (host_begin ''r1''), Write (''ok'' @ NL), Write (host_end ''r1''),
                                 Write (host_begin ''r2''), Write (''ok'' @ NL), Write (host_end ''r2'')],
                          calls := [CmdStatus ''r1'' (''bash -c '' @ SQ @ ''badhost echo hi'' @ SQ),
                                    CmdStatus ''r2'' (''bash -c '' @ SQ @ ''badhost echo hi'' @ SQ)]\<rparr>)"
  by code_simp

section \<open>The pty bridge restores the terminal\<close>

lemma relay_frame:
  "relay fuel p k w = Some (r, w') \<Longrightarrow>
   tty w' = tty w \<and> stdin_isatty w' = stdin_isatty w
   \<and> (\<exists>es. calls w' = calls w @ es \<and> (\<forall>e\<in>set es. \<not> tty_event e))"
proof (induction fuel arbitrary: k w)
  case 0
  then show ?case by simp
next
  case (Suc fuel)
  show ?case
  proof (cases "p k")
    case Exited
    then show ?thesis using Suc.prems by auto
  next
    case Idle
    then show ?thesis using Suc.prems Suc.IH [of "Suc k" w] by simp
  next
    case (FromStdin d)
    then have "relay fuel p (Suc k) (invoke (OsWrite d) w) = Some (r, w')"
      using Suc.prems by simp
    from Suc.IH [OF this] show ?thesis
      by (auto simp: invoke_def)
  next
    case (FromMaster out)
    let ?ops = "if out = [] then [] else [Write out, Flush]"
    obtain r0 w0 where o: "outf_ops ?ops w = (r0, w0)" by (cases "outf_ops ?ops w")
    from outf_ops_frame [OF o] obtain taken where w0: "w0 = w\<lparr>sink := sink w @ taken\<rparr>"
      by blast
    show ?thesis
    proof (cases r0)
      case (Inl e)
      then have "w' = w0" using Suc.prems FromMaster o by simp
      then show ?thesis using w0 by auto
    next
      case (Inr x)
      then have "relay fuel p (Suc k) w0 = Some (r, w')"
        using Suc.prems FromMaster o by simp
      from Suc.IH [OF this] show ?thesis using w0 by auto
    qed
  next
    case (Raised m)
    then show ?thesis using Suc.prems by auto
  qed
qed

lemma spawn_body_frame:
  assumes "spawn_body fuel u h cmd on_host w = Some (r, w')"
  shows "tty w' = tty w \<and> stdin_isatty w' = stdin_isatty w
   \<and> (\<exists>es. calls w' = calls w @ es \<and> (\<forall>e\<in>set es. \<not> tty_event e))"
proof (cases "openpty w")
  case (Inl m)
  then show ?thesis using assms by (auto simp: spawn_body_def invoke_def)
next
  case (Inr x)
  show ?thesis
  proof (cases "map_of (hosts u) h")
    case None
    then show ?thesis using assms Inr by (auto simp: spawn_body_def invoke_def)
  next
    case (Some hc)
    show ?thesis
    proof (cases "popen hc cmd on_host")
      case (Inl m)
      then show ?thesis using assms Inr Some by (auto simp: spawn_body_def invoke_def)
    next
      case (Inr p)
      let ?w2 = "invoke (Popen h cmd on_host) (invoke OpenPty w)"
      obtain r0 w0 where o: "outf_ops [Write [CHR 0x0D], Flush] ?w2 = (r0, w0)"
        by (cases "outf_ops [Write [CHR 0x0D], Flush] ?w2")
      from outf_ops_frame [OF o] obtain taken where w0: "w0 = ?w2\<lparr>sink := sink ?w2 @ taken\<rparr>"
        by blast
      show ?thesis
      proof (cases r0)
        case (Inl e)
        then have "w' = w0"
          using assms \<open>openpty w = Inr x\<close> Some Inr o by (simp add: spawn_body_def Let_def)
        then show ?thesis using w0 by (auto simp: invoke_def)
      next
        case (Inr y)
        then have "relay fuel p 0 w0 = Some (r, w')"
          using assms \<open>openpty w = Inr x\<close> Some \<open>popen hc cmd on_host = Inr p\<close> o
          by (simp add: spawn_body_def Let_def)
        from relay_frame [OF this] show ?thesis using w0 by (auto simp: invoke_def)
      qed
    qed
  qed
qed

text \<open>
  Claim C8: whenever \<open>spawn\<close> returns, normally or with an exception raised in its
  body, the terminal settings are those found at entry. When standard input is a
  terminal they are read, the terminal is set raw, and the last operation writes the
  saved settings back; when it is not, no operation on the terminal settings is made.
\<close>

theorem spawn_restores_tty:
  assumes "spawn fuel u h cmd on_host w = Some (r, w')"
  shows "tty w' = tty w
       \<and> (stdin_isatty w \<longrightarrow>
            (\<exists>es. calls w' = calls w @ [TcGetAttr, SetRaw] @ es @ [TcSetAttr (tty w)]
                  \<and> (\<forall>e\<in>set es. \<not> tty_event e)))
       \<and> (\<not> stdin_isatty w \<longrightarrow>
            filter tty_event (calls w') = filter tty_event (calls w))"
proof (cases "stdin_isatty w")
  case True
  let ?w1 = "(invoke SetRaw (invoke TcGetAttr w))\<lparr>tty := RawOf (tty w)\<rparr>"
  from assms True obtain w2 where b: "spawn_body fuel u h cmd on_host ?w1 = Some (r, w2)"
    and w': "w' = (if stdin_isatty w2 then (invoke (TcSetAttr (tty w)) w2)\<lparr>tty := tty w\<rparr> else w2)"
    by (auto simp: spawn_def Let_def split: option.splits)
  from spawn_body_frame [OF b] obtain es where
    i: "stdin_isatty w2 = stdin_isatty ?w1"
    and c: "calls w2 = calls ?w1 @ es" and n: "\<forall>e\<in>set es. \<not> tty_event e"
    by blast
  have "stdin_isatty w2" using i True by (simp add: invoke_def)
  then show ?thesis using w' c n True by (auto simp: invoke_def)
next
  case False
  from assms False have b: "spawn_body fuel u h cmd on_host w = Some (r, w')"
    by (auto simp: spawn_def Let_def split: option.splits if_splits dest: spawn_body_frame)
  from spawn_body_frame [OF b] show ?thesis using False by auto
qed

text \<open>The loop ends once the child has exited: enough fuel makes it return.\<close>

lemma relay_returns:
  "p (k + n) = Exited \<Longrightarrow> n < fuel \<Longrightarrow> \<exists>r w'. relay fuel p k w = Some (r, w')"
proof (induction n arbitrary: k fuel w)
  case 0
  then obtain f where "fuel = Suc f" by (cases fuel) auto
  then show ?case using 0 by simp
next
  case (Suc n)
  then obtain f where f: "fuel = Suc f" and nf: "n < f" by (cases fuel) auto
  have "p (Suc k + n) = Exited" using Suc.prems by simp
  from Suc.IH [OF this nf] have ih: "\<exists>r w'. relay f p (Suc k) w0 = Some (r, w')" for w0
    by blast
  show ?case
  proof (cases "p k")
    case (FromMaster out)
    obtain r0 w0 where "outf_ops (if out = [] then [] else [Write out, Flush]) w = (r0, w0)"
      by (cases "outf_ops (if out = [] then [] else [Write out, Flush]) w")
    then show ?thesis
      unfolding f using FromMaster ih [of w0] by (cases r0) auto
  qed (use ih in \<open>auto simp: f\<close>)
qed

theorem spawn_restores_tty_witness:
  "spawn 2 demo_unet ''r1'' ''bash'' False demo_world =
     Some (Inr (),
           demo_world\<lparr>sink := [Write [CHR 0x0D], Flush, Write ''$'', Flush],
                        calls := [TcGetAttr, SetRaw, OpenPty, Popen ''r1'' ''bash'' False,
                                  TcSetAttr (Settings 0)]\<rparr>)
   \<and> spawn 2 faulty_unet ''r1'' ''bash'' False demo_world =
     Some (Inl (Fault ''timeout''),
           demo_world\<lparr>calls := [TcGetAttr, SetRaw, OpenPty, Popen ''r1'' ''bash'' False,
                                  TcSetAttr (Settings 0)]\<rparr>)
   \<and> tty demo_world = Settings 0"
proof -
  have a: "spawn 2 demo_unet ''r1'' ''bash'' False demo_world =
     Some (Inr (),
           demo_world\<lparr>sink := [Write [CHR 0x0D], Flush, Write ''$'', Flush],
                        calls := [TcGetAttr, SetRaw, OpenPty, Popen ''r1'' ''bash'' False,
                                  TcSetAttr (Settings 0)]\<rparr>)" by code_simp
  have b: "spawn 2 faulty_unet ''r1'' ''bash'' False demo_world =
     Some (Inl (Fault ''timeout''),
           demo_world\<lparr>calls := [TcGetAttr, SetRaw, OpenPty, Popen ''r1'' ''bash'' False,
                                  TcSetAttr (Settings 0)]\<rparr>)" by code_simp
  show ?thesis
    using spawn_restores_tty [OF a] spawn_restores_tty [OF b] a b by (simp add: demo_world_def)
qed

section \<open>What dispatch does to the sink\<close>

text \<open>
  No function changes which sink it writes to, and every write of the dispatcher and
  of what it calls is a write of a \<open>str\<close> (or a \<open>flush\<close>): on the \<open>StreamWriter\<close> of
  a socket connection the first of them raises, so a call that returns there has left
  the sink as it was.
\<close>

lemma outf_ops_quiet:
  assumes "\<forall>x\<in>set ops. sink_raises StreamWriter x \<noteq> None" and "outf_ops ops w = (r, w')"
  shows "sink_kind w' = sink_kind w \<and> (sink_kind w = StreamWriter \<longrightarrow> sink w' = sink w)"
proof -
  from outf_ops_frame [OF assms(2)] have k: "sink_kind w' = sink_kind w" by auto
  have "sink w' = sink w" if "sink_kind w = StreamWriter"
    using assms that by (cases ops) (auto split: option.splits)
  then show ?thesis using k by simp
qed

lemma write_then_quiet:
  assumes "write_then s v w = Some (r, w')"
  shows "sink_kind w' = sink_kind w \<and> (sink_kind w = StreamWriter \<longrightarrow> sink w' = sink w)"
proof -
  from write_then_frame [OF assms] have k: "sink_kind w' = sink_kind w" by auto
  have "sink w' = sink w" if "sink_kind w = StreamWriter"
    using assms write_then_stream [OF that, of s v] by simp
  then show ?thesis using k by simp
qed

lemma relay_quiet:
  "relay fuel p k w = Some (r, w') \<Longrightarrow>
   sink_kind w' = sink_kind w \<and> (sink_kind w = StreamWriter \<longrightarrow> sink w' = sink w)"
proof (induction fuel arbitrary: k w)
  case 0
  then show ?case by simp
next
  case (Suc fuel)
  show ?case
  proof (cases "p k")
    case Exited
    then show ?thesis using Suc.prems by auto
  next
    case Idle
    then show ?thesis using Suc.prems Suc.IH [of "Suc k" w] by simp
  next
    case (FromStdin d)
    then have "relay fuel p (Suc k) (invoke (OsWrite d) w) = Some (r, w')"
      using Suc.prems by simp
    from Suc.IH [OF this] show ?thesis by (simp add: invoke_def)
  next
    case (FromMaster out)
    let ?ops = "if out = [] then [] else [Write out, Flush]"
    obtain r0 w0 where o: "outf_ops ?ops w = (r0, w0)" by (cases "outf_ops ?ops w")
    have q: "sink_kind w0 = sink_kind w \<and> (sink_kind w = StreamWriter \<longrightarrow> sink w0 = sink w)"
      by (rule outf_ops_quiet [OF _ o]) simp
    show ?thesis
    proof (cases r0)
      case (Inl e)
      then have "w' = w0" using Suc.prems FromMaster o by simp
      then show ?thesis using q by simp
    next
      case (Inr x)
      then have "relay fuel p (Suc k) w0 = Some (r, w')"
        using Suc.prems FromMaster o by simp
      from Suc.IH [OF this] show ?thesis using q by simp
    qed
  next
    case (Raised m)
    then show ?thesis using Suc.prems by auto
  qed
qed

lemma spawn_body_quiet:
  assumes "spawn_body fuel u h cmd on_host w = Some (r, w')"
  shows "sink_kind w' = sink_kind w \<and> (sink_kind w = StreamWriter \<longrightarrow> sink w' = sink w)"
proof (cases "openpty w")
  case (Inl m)
  then show ?thesis using assms by (auto simp: spawn_body_def invoke_def)
next
  case (Inr x)
  show ?thesis
  proof (cases "map_of (hosts u) h")
    case None
    then show ?thesis using assms Inr by (auto simp: spawn_body_def invoke_def)
  next
    case (Some hc)
    show ?thesis
    proof (cases "popen hc cmd on_host")
      case (Inl m)
      then show ?thesis using assms Inr Some by (auto simp: spawn_body_def invoke_def)
    next
      case (Inr p)
      let ?w2 = "invoke (Popen h cmd on_host) (invoke OpenPty w)"
      obtain r0 w0 where o: "outf_ops [Write [CHR 0x0D], Flush] ?w2 = (r0, w0)"
        by (cases "outf_ops [Write [CHR 0x0D], Flush] ?w2")
      have q: "sink_kind w0 = sink_kind ?w2 \<and> (sink_kind ?w2 = StreamWriter \<longrightarrow> sink w0 = sink ?w2)"
        by (rule outf_ops_quiet [OF _ o]) simp
      show ?thesis
      proof (cases r0)
        case (Inl e)
        then have "w' = w0"
          using assms \<open>openpty w = Inr x\<close> Some Inr o by (simp add: spawn_body_def Let_def)
        then show ?thesis using q by (simp add: invoke_def)
      next
        case (Inr y)
        then have "relay fuel p 0 w0 = Some (r, w')"
          using assms \<open>openpty w = Inr x\<close> Some \<open>popen hc cmd on_host = Inr p\<close> o
          by (simp add: spawn_body_def Let_def)
        from relay_quiet [OF this] show ?thesis using q by (simp add: invoke_def)
      qed
    qed
  qed
qed

lemma spawn_quiet:
  assumes "spawn fuel u h cmd on_host w = Some (r, w')"
  shows "sink_kind w' = sink_kind w \<and> (sink_kind w = StreamWriter \<longrightarrow> sink w' = sink w)"
proof -
  let ?w1 = "if stdin_isatty w
             then (invoke SetRaw (invoke TcGetAttr w))\<lparr>tty := RawOf (tty w)\<rparr> else w"
  from assms obtain w2 where b: "spawn_body fuel u h cmd on_host ?w1 = Some (r, w2)"
    and w': "w' = (if stdin_isatty w2 then (invoke (TcSetAttr (tty w)) w2)\<lparr>tty := tty w\<rparr> else w2)"
    by (auto simp: spawn_def Let_def split: option.splits)
  from spawn_body_quiet [OF b] show ?thesis
    using w' by (auto simp: invoke_def)
qed

lemma run_pty_quiet:
  "run_pty fuel u multi ucmd on_host hs w = Some (r, w') \<Longrightarrow>
   sink_kind w' = sink_kind w \<and> (sink_kind w = StreamWriter \<longrightarrow> sink w' = sink w)"
proof (induction hs arbitrary: w)
  case Nil
  then show ?case by simp
next
  case (Cons h hs)
  let ?b = "if multi then [Write (host_begin h)] else []"
  obtain r1 w1 where o1: "outf_ops ?b w = (r1, w1)" by (cases "outf_ops ?b w")
  have q1: "sink_kind w1 = sink_kind w \<and> (sink_kind w = StreamWriter \<longrightarrow> sink w1 = sink w)"
    by (rule outf_ops_quiet [OF _ o1]) simp
  show ?case
  proof (cases r1)
    case (Inl e)
    then have "w' = w1" using Cons.prems o1 by (simp add: Let_def)
    then show ?thesis using q1 by simp
  next
    case (Inr x1)
    from Cons.prems o1 Inr obtain r2 w2
      where s: "spawn fuel u h (replace ''%NAME%'' h ucmd) on_host w1 = Some (r2, w2)"
      by (auto simp: Let_def split: option.splits)
    have q2: "sink_kind w2 = sink_kind w1 \<and> (sink_kind w1 = StreamWriter \<longrightarrow> sink w2 = sink w1)"
      by (rule spawn_quiet [OF s])
    show ?thesis
    proof (cases r2)
      case (Inl e)
      then have "w' = w2" using Cons.prems o1 Inr s by (simp add: Let_def)
      then show ?thesis using q1 q2 by simp
    next
      case (Inr x2)
      let ?e = "if multi then [Write (host_end h)] else []"
      obtain r3 w3 where o3: "outf_ops ?e w2 = (r3, w3)" by (cases "outf_ops ?e w2")
      have q3: "sink_kind w3 = sink_kind w2 \<and> (sink_kind w2 = StreamWriter \<longrightarrow> sink w3 = sink w2)"
        by (rule outf_ops_quiet [OF _ o3]) simp
      show ?thesis
      proof (cases r3)
        case (Inl e)
        then have "w' = w3"
          using Cons.prems o1 \<open>r1 = Inr x1\<close> s Inr o3 by (simp add: Let_def)
        then show ?thesis using q1 q2 q3 by simp
      next
        case (Inr x3)
        then have "run_pty fuel u multi ucmd on_host hs w3 = Some (r, w')"
          using Cons.prems o1 \<open>r1 = Inr x1\<close> s \<open>r2 = Inr x2\<close> o3 by (simp add: Let_def)
        from Cons.IH [OF this] show ?thesis using q1 q2 q3 by simp
      qed
    qed
  qed
qed

lemma report_quiet:
  "report multi zs w = (r, w') \<Longrightarrow>
   sink_kind w' = sink_kind w \<and> (sink_kind w = StreamWriter \<longrightarrow> sink w' = sink w)"
proof (induction zs arbitrary: w)
  case Nil
  then show ?case by simp
next
  case (Cons z zs)
  obtain h a where z: "z = (h, a)" by (cases z)
  show ?case
  proof (cases a)
    case (Inl m)
    then show ?thesis using z Cons.prems by simp
  next
    case (Inr x)
    obtain rc out where x: "x = (rc, out)" by (cases x)
    let ?ops = "(if multi then [Write (host_begin h)] else [])
                 @ (if rc \<noteq> 0
                    then [Write (''*** non-zero exit status: '' @ str_of_int rc @ NL)]
                    else [])
                 @ [Write out]
                 @ (if multi then [Write (host_end h)] else [])"
    obtain r0 w0 where o: "outf_ops ?ops w = (r0, w0)" by (cases "outf_ops ?ops w")
    have q: "sink_kind w0 = sink_kind w \<and> (sink_kind w = StreamWriter \<longrightarrow> sink w0 = sink w)"
      by (rule outf_ops_quiet [OF _ o]) auto
    show ?thesis
    proof (cases r0)
      case (Inl e)
      then have "w' = w0" using Cons.prems z \<open>a = Inr x\<close> x o by simp
      then show ?thesis using q by simp
    next
      case (Inr y)
      then have "report multi zs w0 = (r, w')"
        using Cons.prems z \<open>a = Inr x\<close> x o by simp
      from Cons.IH [OF this] show ?thesis using q by simp
    qed
  qed
qed

lemma run_command_quiet:
  assumes "run_command fuel u line execfmt on_host with_pty w = Some (r, w')"
  shows "sink_kind w' = sink_kind w \<and> (sink_kind w = StreamWriter \<longrightarrow> sink w' = sink w)"
proof -
  obtain hs ucmd0 where sp: "host_cmd_split u line = (hs, ucmd0)"
    by (cases "host_cmd_split u line")
  have k: "filter (\<lambda>x. \<not> is_host u x) hs = []"
    using host_cmd_split_known [of u line] sp by (simp add: filter_empty_conv)
  show ?thesis
  proof (cases "str_format execfmt ucmd0")
    case (Inl e)
    then show ?thesis using assms sp k by (simp add: run_command_def)
  next
    case (Inr f)
    let ?ucmd = "replace ''%INSTANCE%'' (unet_instance u) f"
    show ?thesis
    proof (cases with_pty)
      case True
      from assms sp k Inr True obtain r1 w1
        where p: "run_pty fuel u (1 < length hs) ?ucmd on_host hs w = Some (r1, w1)"
        by (auto simp: run_command_def split: option.splits)
      have q1: "sink_kind w1 = sink_kind w \<and> (sink_kind w = StreamWriter \<longrightarrow> sink w1 = sink w)"
        by (rule run_pty_quiet [OF p])
      show ?thesis
      proof (cases r1)
        case (Inl e)
        then have "w' = w1" using assms sp k \<open>str_format execfmt ucmd0 = Inr f\<close> True p
          by (simp add: run_command_def)
        then show ?thesis using q1 by simp
      next
        case (Inr x)
        then have o: "outf_ops [Write NL] w1 = (r, w')"
          using assms sp k \<open>str_format execfmt ucmd0 = Inr f\<close> True p
          by (simp add: run_command_def outf_write_def)
        have "sink_kind w' = sink_kind w1 \<and> (sink_kind w1 = StreamWriter \<longrightarrow> sink w' = sink w1)"
          by (rule outf_ops_quiet [OF _ o]) simp
        then show ?thesis using q1 by simp
      qed
    next
      case False
      show ?thesis
      proof (cases "mk_aws u ?ucmd on_host hs")
        case (Inl e)
        then show ?thesis using assms sp k Inr False by (simp add: run_command_def)
      next
        case (Inr aws)
        then have "report (1 < length hs) (zip hs (map snd aws)) (w\<lparr>calls := calls w @ map fst aws\<rparr>) = (r, w')"
          using assms sp k \<open>str_format execfmt ucmd0 = Inr f\<close> False
          by (simp add: run_command_def)
        from report_quiet [OF this] show ?thesis by simp
      qed
    qed
  qed
qed

lemma launch_windows_quiet:
  "launch_windows wc hcs w = (r, w') \<Longrightarrow> sink_kind w' = sink_kind w \<and> sink w' = sink w"
proof (induction hcs arbitrary: w)
  case Nil
  then show ?case by simp
next
  case (Cons a hcs)
  obtain x hc where a: "a = (x, hc)" by (cases a)
  show ?case
  proof (cases "run_in_window hc (wc_shell wc) (wc_kwargs wc)")
    case (Inl m)
    then show ?thesis using Cons.prems a by (auto simp: Let_def invoke_def)
  next
    case (Inr y)
    then have "launch_windows wc hcs (invoke (RunInWindow x (wc_shell wc) (wc_kwargs wc)) w) = (r, w')"
      using Cons.prems a by (simp add: Let_def)
    from Cons.IH [OF this] show ?thesis by (simp add: invoke_def)
  qed
qed

lemma doline_window_quiet:
  assumes "doline_window u wc nline w = Some (r, w')"
  shows "sink_kind w' = sink_kind w \<and> (sink_kind w = StreamWriter \<longrightarrow> sink w' = sink w)"
proof -
  let ?args0 = "str_split nline"
  let ?args = "if ?args0 = [''*''] then sorted_hosts u else ?args0"
  let ?unknowns = "filter (\<lambda>x. \<not> is_host u x) ?args"
  show ?thesis
  proof (cases "?unknowns = []")
    case False
    then have "write_then (''% Unknown host[s]: '' @ join '' '' ?unknowns @ NL) True w = Some (r, w')"
      using assms by (simp add: doline_window_def Let_def)
    then show ?thesis by (rule write_then_quiet)
  next
    case True
    show ?thesis
    proof (cases "lookup_hosts u ?args")
      case (Inl e)
      then show ?thesis using assms True by (simp add: doline_window_def Let_def)
    next
      case (Inr hcs)
      obtain r0 w0 where l: "launch_windows wc hcs w = (r0, w0)"
        by (cases "launch_windows wc hcs w")
      have q: "sink_kind w0 = sink_kind w \<and> sink w0 = sink w"
        by (rule launch_windows_quiet [OF l])
      show ?thesis
      proof (cases r0)
        case (Inl m)
        then have "write_then (''% Error: '' @ m @ NL) True w0 = Some (r, w')"
          using assms True \<open>lookup_hosts u ?args = Inr hcs\<close> l by (simp add: doline_window_def Let_def)
        from write_then_quiet [OF this] show ?thesis using q by simp
      next
        case (Inr y)
        then have "w' = w0"
          using assms True \<open>lookup_hosts u ?args = Inr hcs\<close> l by (simp add: doline_window_def Let_def)
        then show ?thesis using q by simp
      qed
    qed
  qed
qed

lemma doline_run_quiet:
  assumes "doline_run fuel u rc residual notty w = Some (r, w')"
  shows "sink_kind w' = sink_kind w \<and> (sink_kind w = StreamWriter \<longrightarrow> sink w' = sink w)"
proof (cases "rc_interactive rc \<and> notty")
  case True
  then have "write_then (''% Error: interactive command must be run from primary CLI'' @ NL) True w
             = Some (r, w')"
    using assms by (simp add: doline_run_def)
  then show ?thesis by (rule write_then_quiet)
next
  case False
  from assms False obtain r0
    where "run_command fuel u residual (rc_execfmt rc) (rc_on_host rc) (rc_interactive rc) w = Some (r0, w')"
    by (auto simp: doline_run_def split: option.splits sum.splits)
  then show ?thesis by (rule run_command_quiet)
qed

lemma remote_cli_quiet:
  "sink_kind (remote_cli u p t b w) = sink_kind w \<and> sink (remote_cli u p t b w) = sink w"
  by (simp add: remote_cli_def invoke_def Let_def split: sum.splits option.splits)

lemma doline_quiet:
  assumes "doline fuel u line background notty w = Some (r, w')"
  shows "sink_kind w' = sink_kind w \<and> (sink_kind w = StreamWriter \<longrightarrow> sink w' = sink w)"
proof (cases "match_line (strip line)")
  case None
  then show ?thesis using assms by (simp add: doline_def)
next
  case (Some a)
  obtain cmd g2 where a: "a = (cmd, g2)" by (cases a)
  have m: "match_line (strip line) = Some (cmd, g2)" using Some a by simp
  note d = assms [unfolded doline_parsed [OF m] Let_def]
  consider (c_quit) "cmd = ''q'' \<or> cmd = ''quit''"
    | (c_help) "cmd = ''help''"
    | (c_hosts) "cmd = ''h'' \<or> cmd = ''hosts''"
    | (c_cli) "cmd = ''cli''"
    | (c_other) "cmd \<notin> {''q'', ''quit'', ''help'', ''h'', ''hosts'', ''cli''}"
    by auto
  then show ?thesis
  proof cases
    case c_quit
    then show ?thesis using d by auto
  next
    case c_help
    then show ?thesis using d by (auto split: sum.splits dest: write_then_quiet)
  next
    case c_hosts
    then show ?thesis using d by (auto dest: write_then_quiet)
  next
    case c_cli
    then show ?thesis using d by (auto simp: remote_cli_quiet)
  next
    case c_other
    then show ?thesis using d
      by (auto split: option.splits
               dest: write_then_quiet doline_window_quiet doline_run_quiet)
  qed
qed

section \<open>The socket protocol\<close>

lemma rstrip_append_spaces:
  "\<forall>c\<in>set sp. isspace c \<Longrightarrow> rstrip (x @ sp) = rstrip x"
  by (simp add: rstrip_def dropWhile_append)

lemma strip_append_spaces:
  assumes "\<forall>c\<in>set sp. isspace c"
  shows "strip (l @ sp) = strip l"
proof (cases "\<forall>c\<in>set l. isspace c")
  case True
  then have "dropWhile isspace (l @ sp) = []" "dropWhile isspace l = []"
    using assms by auto
  then show ?thesis by (simp add: strip_def del: dropWhile_eq_Nil_conv)
next
  case False
  then obtain c where "c \<in> set l" "\<not> isspace c" by blast
  then have "dropWhile isspace (l @ sp) = dropWhile isspace l @ sp"
    by (rule dropWhile_append1)
  then show ?thesis using assms by (simp add: strip_def rstrip_append_spaces)
qed

lemma set_strip: "set (strip x) \<subseteq> set x"
proof -
  obtain sp where "dropWhile isspace x = rstrip (dropWhile isspace x) @ sp"
    using rstrip_decomp by blast
  then have "set (strip x) \<subseteq> set (dropWhile isspace x)"
    unfolding strip_def by (metis Un_upper1 set_append)
  then show ?thesis by (auto dest: set_dropWhileD)
qed

lemma str_split_strip: "str_split (strip x) = str_split x"
  by (simp add: strip_def str_split_rstrip str_split_dropWhile)

lemma isspace_NL: "\<forall>c\<in>set NL. isspace c"
  by (simp add: NL_def isspace_def)

text \<open>The server stops on a line whose first token is \<open>q\<close> or \<open>quit\<close>.\<close>

lemma doline_quit_line:
  assumes "CHR 0x0A \<notin> set l" and "str_split l = cmd # toks"
    and "cmd = ''q'' \<or> cmd = ''quit''"
  shows "doline fuel u (strip (l @ NL)) background notty w = Some (Inr False, w)"
proof -
  have st: "strip (l @ NL) = strip l"
    using strip_append_spaces [OF isspace_NL] by simp
  have nl: "CHR 0x0A \<notin> set (strip (l @ NL))"
    using st set_strip [of l] assms(1) by auto
  have "str_split (strip (l @ NL)) = cmd # toks"
    using assms(2) st by (simp add: str_split_strip)
  from match_line_split [OF nl this]
  obtain g2 where m: "match_line (strip (strip (l @ NL))) = Some (cmd, g2)" by blast
  show ?thesis
    using assms(3) by (auto simp: doline_parsed [OF m])
qed

text \<open>
  Claim C3, as amended: for a line of a socket connection that decodes and on which
  the dispatcher returns continue, the server appends the sentinel to what the
  dispatcher left in the sink and drains, and only then goes on to the next line; for
  a newline-terminated line whose first token is \<open>quit\<close> or \<open>q\<close> the dispatcher returns
  stop and the server returns at once, leaving the sink as it was.
\<close>

theorem socket_line_response:
  assumes "sink_kind w = StreamWriter" and "raw \<noteq> []" and "utf8_decode raw = Inr line"
  shows "(\<forall>w'. doline fuel u (strip line) background True w = Some (Inr True, w') \<longrightarrow>
            cli_client_connected fuel u background (raw # rest) w =
            cli_client_connected fuel u background rest
              (w'\<lparr>sink := sink w' @ [WriteBytes ENDMARKER, Drain]\<rparr>))
       \<and> (\<forall>l cmd toks. line = l @ NL \<and> CHR 0x0A \<notin> set l \<and> str_split l = cmd # toks
                        \<and> (cmd = ''q'' \<or> cmd = ''quit'') \<longrightarrow>
            cli_client_connected fuel u background (raw # rest) w = Some (Inr (), w))"
proof -
  have cont: "cli_client_connected fuel u background (raw # rest) w =
              cli_client_connected fuel u background rest
                (w'\<lparr>sink := sink w' @ [WriteBytes ENDMARKER, Drain]\<rparr>)"
    if d: "doline fuel u (strip line) background True w = Some (Inr True, w')" for w'
  proof -
    have "sink_kind w' = StreamWriter"
      using doline_quiet [OF d] assms(1) by simp
    then show ?thesis using assms(2,3) d by simp
  qed
  have quit: "cli_client_connected fuel u background (raw # rest) w = Some (Inr (), w)"
    if "line = l @ NL" and "CHR 0x0A \<notin> set l" and "str_split l = cmd # toks"
      and "cmd = ''q'' \<or> cmd = ''quit''" for l cmd toks
  proof -
    have "doline fuel u (strip line) background True w = Some (Inr False, w)"
      unfolding that(1) by (rule doline_quit_line [OF that(2,3,4)])
    then show ?thesis using assms(2,3) by simp
  qed
  show ?thesis using cont quit by blast
qed

theorem socket_line_response_witness:
  "cli_client_connected 0 demo_unet False [NL, ''term'' @ NL, ''quit'' @ NL, NL] socket_world
   = Some (Inr (),
           socket_world\<lparr>sink := [WriteBytes ENDMARKER, Drain, WriteBytes ENDMARKER, Drain]\<rparr>)
   \<and> cli_client_connected 0 demo_unet False [[CHR 0xC2, CHR 0xA0] @ ''quit'' @ NL, NL] socket_world
     = Some (Inr (), socket_world)"
proof -
  let ?w1 = "socket_world\<lparr>sink := [WriteBytes ENDMARKER, Drain]\<rparr>"
  let ?w2 = "socket_world\<lparr>sink := [WriteBytes ENDMARKER, Drain, WriteBytes ENDMARKER, Drain]\<rparr>"
  have k: "sink_kind socket_world = StreamWriter" "sink_kind ?w1 = StreamWriter"
    "sink_kind ?w2 = StreamWriter"
    by (simp_all add: socket_world_def)
  have n: "NL \<noteq> []" "''term'' @ NL \<noteq> []" "''quit'' @ NL \<noteq> []"
    "[CHR 0xC2, CHR 0xA0] @ ''quit'' @ NL \<noteq> []"
    by (simp_all add: NL_def)
  have u: "utf8_decode NL = Inr NL" "utf8_decode (''term'' @ NL) = Inr (''term'' @ NL)"
    "utf8_decode (''quit'' @ NL) = Inr (''quit'' @ NL)"
    "utf8_decode ([CHR 0xC2, CHR 0xA0] @ ''quit'' @ NL) = Inr (([CHR 0xA0] @ ''quit'') @ NL)"
    by code_simp+
  have d1: "doline 0 demo_unet (strip NL) False True socket_world = Some (Inr True, socket_world)"
    by code_simp
  have d2: "doline 0 demo_unet (strip (''term'' @ NL)) False True ?w1 = Some (Inr True, ?w1)"
    by code_simp
  have q: "CHR 0x0A \<notin> set ''quit''" "str_split ''quit'' = ''quit'' # []"
    "CHR 0x0A \<notin> set ([CHR 0xA0] @ ''quit'')" "str_split ([CHR 0xA0] @ ''quit'') = ''quit'' # []"
    by code_simp+
  have e: "socket_world\<lparr>sink := sink socket_world @ [WriteBytes ENDMARKER, Drain]\<rparr> = ?w1"
    "?w1\<lparr>sink := sink ?w1 @ [WriteBytes ENDMARKER, Drain]\<rparr> = ?w2"
    by (simp_all add: socket_world_def demo_world_def)
  have "cli_client_connected 0 demo_unet False [NL, ''term'' @ NL, ''quit'' @ NL, NL] socket_world
        = cli_client_connected 0 demo_unet False [''term'' @ NL, ''quit'' @ NL, NL]
            (socket_world\<lparr>sink := sink socket_world @ [WriteBytes ENDMARKER, Drain]\<rparr>)"
    using socket_line_response [OF k(1) n(1) u(1), of 0 demo_unet False "[''term'' @ NL, ''quit'' @ NL, NL]"] d1
    by blast
  then have 1: "cli_client_connected 0 demo_unet False [NL, ''term'' @ NL, ''quit'' @ NL, NL] socket_world
        = cli_client_connected 0 demo_unet False [''term'' @ NL, ''quit'' @ NL, NL] ?w1"
    by (simp only: e)
  have "cli_client_connected 0 demo_unet False [''term'' @ NL, ''quit'' @ NL, NL] ?w1
        = cli_client_connected 0 demo_unet False [''quit'' @ NL, NL]
            (?w1\<lparr>sink := sink ?w1 @ [WriteBytes ENDMARKER, Drain]\<rparr>)"
    using socket_line_response [OF k(2) n(2) u(2), of 0 demo_unet False "[''quit'' @ NL, NL]"] d2
    by blast
  then have 2: "cli_client_connected 0 demo_unet False [''term'' @ NL, ''quit'' @ NL, NL] ?w1
        = cli_client_connected 0 demo_unet False [''quit'' @ NL, NL] ?w2"
    by (simp only: e)
  have 3: "cli_client_connected 0 demo_unet False [''quit'' @ NL, NL] ?w2 = Some (Inr (), ?w2)"
    using socket_line_response [OF k(3) n(3) u(3), of 0 demo_unet False "[NL]"] q(1,2)
    by blast
  have 4: "cli_client_connected 0 demo_unet False [[CHR 0xC2, CHR 0xA0] @ ''quit'' @ NL, NL] socket_world
        = Some (Inr (), socket_world)"
    using socket_line_response [OF k(1) n(4) u(4), of 0 demo_unet False "[NL]"] q(3,4)
    by blast
  show ?thesis using 1 2 3 4 by (simp only: simp_thms)
qed

text \<open>
  Claim C3 says that every line, \<open>quit\<close> included, is answered with the output of the
  dispatcher followed by the sentinel. The server that reads \<open>quit\<close> writes nothing, no
  sentinel either; and on \<open>hosts\<close> the dispatcher's write raises TypeError, which ends
  the handler before any sentinel.
\<close>

theorem quit_gets_no_sentinel:
  "cli_client_connected 0 demo_unet False [''quit'' @ NL] socket_world = Some (Inr (), socket_world)
   \<and> cli_client_connected 0 demo_unet False [''hosts'' @ NL] socket_world
     = Some (Inl TypeError, socket_world)"
  by code_simp

lemma collect_ends:
  "collect rb chunks = Some (rb', rest) \<Longrightarrow> bendswith rb' ENDMARKER"
proof (induction rb chunks rule: collect.induct)
  case (1 rb chunks)
  show ?case
  proof (cases "bendswith rb ENDMARKER")
    case True
    then show ?thesis using "1.prems" by simp
  next
    case False
    then obtain lb more where c: "chunks = lb # more" and lb: "lb \<noteq> []"
      and r: "collect (rb @ lb) more = Some (rb', rest)"
      using "1.prems" by (cases chunks) (auto split: if_splits)
    from "1.IH" [OF False c lb r] show ?thesis .
  qed
qed

text \<open>
  Claim C4, as amended: the server appends, and the client waits for and strips, the
  same sentinel \<open>ENDMARKER\<close>, the five bytes NUL \<open>E\<close> \<open>N\<close> \<open>D\<close> NUL. What the client
  has collected ends with it, and a response received in one piece is collected whole.
\<close>

theorem endmarker_shared:
  "ENDMARKER = [CHR 0x00, CHR ''E'', CHR ''N'', CHR ''D'', CHR 0x00]
   \<and> length ENDMARKER = 5
   \<and> (raw \<noteq> [] \<and> utf8_decode raw = Inr line \<and> sink_kind w = StreamWriter
        \<and> doline fuel u (strip line) background True w = Some (Inr True, w') \<longrightarrow>
        cli_client_connected fuel u background [raw] w =
          Some (Inr (), w'\<lparr>sink := sink w' @ [WriteBytes ENDMARKER, Drain]\<rparr>))
   \<and> (collect rb chunks = Some (rb', rest) \<longrightarrow>
        rb' = take (length rb' - length ENDMARKER) rb' @ ENDMARKER)
   \<and> collect [] [out @ ENDMARKER] = Some (out @ ENDMARKER, [])"
proof -
  have s: "cli_client_connected fuel u background [raw] w =
             Some (Inr (), w'\<lparr>sink := sink w' @ [WriteBytes ENDMARKER, Drain]\<rparr>)"
    if "raw \<noteq> []" and "utf8_decode raw = Inr line" and "sink_kind w = StreamWriter"
      and d: "doline fuel u (strip line) background True w = Some (Inr True, w')"
  proof -
    have "sink_kind w' = StreamWriter"
      using doline_quiet [OF d] that(3) by simp
    then show ?thesis using that by simp
  qed
  have a: "rb' = take (length rb' - length ENDMARKER) rb' @ ENDMARKER"
    if "collect rb chunks = Some (rb', rest)"
  proof -
    have "drop (length rb' - length ENDMARKER) rb' = ENDMARKER"
      using collect_ends [OF that] by (simp add: bendswith_def ENDMARKER_def)
    then show ?thesis by (metis append_take_drop_id)
  qed
  have b: "collect [] [out @ ENDMARKER] = Some (out @ ENDMARKER, [])"
    by (simp add: bendswith_def ENDMARKER_def)
  have e: "ENDMARKER = [CHR 0x00, CHR ''E'', CHR ''N'', CHR ''D'', CHR 0x00]"
    "length ENDMARKER = 5"
    by (simp_all add: ENDMARKER_def)
  show ?thesis using s a b e by blast
qed

text \<open>Claim C4 says that the sentinel has six bytes.\<close>

theorem endmarker_is_five_bytes: "length ENDMARKER \<noteq> 6"
  by (simp add: ENDMARKER_def)

theorem endmarker_shared_witness:
  "cli_client_connected 0 demo_unet False [''term'' @ NL] socket_world
   = Some (Inr (), socket_world\<lparr>sink := [WriteBytes ENDMARKER, Drain]\<rparr>)
   \<and> collect [] [''ok'', NL @ ENDMARKER] = Some (''ok'' @ NL @ ENDMARKER, [])
   \<and> ''ok'' @ NL @ ENDMARKER
     = take (length (''ok'' @ NL @ ENDMARKER) - length ENDMARKER) (''ok'' @ NL @ ENDMARKER) @ ENDMARKER
   \<and> cli_client [''term''] [''ok'', NL @ ENDMARKER] = (([''term'' @ NL], [''ok'' @ NL]), None)"
proof -
  have d: "doline 0 demo_unet (strip (''term'' @ NL)) False True socket_world
           = Some (Inr True, socket_world)"
    by code_simp
  have u: "utf8_decode (''term'' @ NL) = Inr (''term'' @ NL)" by code_simp
  have k: "sink_kind socket_world = StreamWriter" by (simp add: socket_world_def)
  have c: "collect [] [''ok'', NL @ ENDMARKER] = Some (''ok'' @ NL @ ENDMARKER, [])"
    by code_simp
  have p: "cli_client [''term''] [''ok'', NL @ ENDMARKER] = (([''term'' @ NL], [''ok'' @ NL]), None)"
    by code_simp
  have n: "''term'' @ NL \<noteq> []" by (simp add: NL_def)
  have e: "socket_world\<lparr>sink := sink socket_world @ [WriteBytes ENDMARKER, Drain]\<rparr>
           = socket_world\<lparr>sink := [WriteBytes ENDMARKER, Drain]\<rparr>"
    by (simp add: socket_world_def demo_world_def)
  note t = endmarker_shared [where raw = "''term'' @ NL" and line = "''term'' @ NL"
            and fuel = 0 and u = demo_unet
            and background = False and w = socket_world and w' = socket_world
            and rb = "[]" and chunks = "[''ok'', NL @ ENDMARKER]"
            and rb' = "''ok'' @ NL @ ENDMARKER" and rest = "[]"]
  have 1: "cli_client_connected 0 demo_unet False [''term'' @ NL] socket_world
           = Some (Inr (), socket_world\<lparr>sink := sink socket_world @ [WriteBytes ENDMARKER, Drain]\<rparr>)"
    using t d u k n by blast
  have 2: "''ok'' @ NL @ ENDMARKER
     = take (length (''ok'' @ NL @ ENDMARKER) - length ENDMARKER) (''ok'' @ NL @ ENDMARKER) @ ENDMARKER"
    using t c by blast
  show ?thesis using 1 2 c p by (simp only: e simp_thms)
qed

end
